theory Spec2Isabelle
  imports Complex_Main "HOL-Library.Char_ord" "HOL-Library.List_Lexorder" "HOL-Library.Multiset"
begin

section \<open>PMT data explorer: the SVG line chart and its host state\<close>

text \<open>
  The development embeds \<^verbatim>\<open>src/PMTDataExplorer.jsx\<close>: the linear scale \<^verbatim>\<open>scaleData\<close>,
  the component \<^verbatim>\<open>SvgLineChart\<close> (domains, ticks, grouping, markers) and the part of
  \<^verbatim>\<open>App\<close> that derives the source list, the colour map, the filtered data and the
  selection from a snapshot.
\<close>

subsection \<open>JavaScript numbers\<close>

text \<open>
  A JavaScript number is an IEEE 754 double. A finite double is modelled by its
  mathematical value, the three special values by constructors of their own. \<open>fl\<close>
  rounds a real number to the nearest double, an exact tie to the double with the even
  mantissa, with gradual underflow below \<open>2 powi (- 1022)\<close> and overflow to an infinity
  from \<open>2 ^ 1024 - 2 ^ 970\<close> on. Every arithmetic operation returns the rounded exact
  result, as IEEE 754 prescribes; \<open>0 / 0\<close> is \<open>NaN\<close> and \<open>x / 0\<close> is an infinity, never
  an exception and never HOL's \<open>x / 0 = 0\<close>. The sign of zero is not modelled: \<open>-0\<close> is
  \<open>0\<close>, and a zero divisor counts as \<open>+0\<close>.
\<close>

datatype jsnum = Fin real | PosInf | NegInf | NaN

fun isFinite :: "jsnum \<Rightarrow> bool" where
  "isFinite (Fin _) = True"
| "isFinite _ = False"

definition signed_inf :: "bool \<Rightarrow> jsnum" where
  "signed_inf positive = (if positive then PosInf else NegInf)"

text \<open>
  \<open>ilog2 x\<close>, for a positive \<open>x\<close>, is the integer \<open>e\<close> with \<open>2 powi e \<le> x < 2 powi (e + 1)\<close>.
\<close>

function ilog2 :: "real \<Rightarrow> int" where
  "ilog2 x =
     (if x \<le> 0 then 0
      else if 2 \<le> x then ilog2 (x / 2) + 1
      else if x < 1 then ilog2 (x * 2) - 1
      else 0)"
  by pat_completeness auto

termination ilog2
proof (relation "measure (\<lambda>x. if 1 \<le> x then nat \<lfloor>x\<rfloor> else nat \<lceil>1 / x\<rceil> + 2)", goal_cases)
  case 1
  show ?case by simp
next
  case (2 x)
  have "x / 2 \<le> x - 1" using 2 by simp
  then have "\<lfloor>x / 2\<rfloor> \<le> \<lfloor>x - 1\<rfloor>" by (rule floor_mono)
  also have "\<dots> = \<lfloor>x\<rfloor> - 1" by linarith
  finally have "\<lfloor>x / 2\<rfloor> < \<lfloor>x\<rfloor>" by simp
  moreover have "0 < \<lfloor>x\<rfloor>" using 2 by linarith
  ultimately have "nat \<lfloor>x / 2\<rfloor> < nat \<lfloor>x\<rfloor>" by linarith
  then show ?case using 2 by simp
next
  case (3 x)
  show ?case
  proof (cases "1 \<le> x * 2")
    case True
    have "x * 2 < 2" using 3 by simp
    then have "nat \<lfloor>x * 2\<rfloor> < 2" by linarith
    then show ?thesis using 3 True by simp
  next
    case False
    define y where "y = 1 / x"
    have y: "2 < y" using 3 False by (simp add: y_def field_simps)
    have e: "1 / (x * 2) = y / 2" by (simp add: y_def)
    have "y / 2 \<le> y - 1" using y by simp
    then have "\<lceil>y / 2\<rceil> \<le> \<lceil>y - 1\<rceil>" by (rule ceiling_mono)
    also have "\<dots> = \<lceil>y\<rceil> - 1" by linarith
    finally have "\<lceil>y / 2\<rceil> < \<lceil>y\<rceil>" by simp
    moreover have "0 < \<lceil>y\<rceil>" using y by linarith
    ultimately have "nat \<lceil>1 / (x * 2)\<rceil> < nat \<lceil>1 / x\<rceil>" unfolding e y_def by linarith
    then show ?thesis using 3 False by simp
  qed
qed

declare ilog2.simps [simp del]

text \<open>The nearest integer, an exact half going to the even neighbour.\<close>

definition round_even :: "real \<Rightarrow> int" where
  "round_even x =
     (let n = \<lfloor>x\<rfloor>; r = x - of_int n in
      if r < 1 / 2 then n else if 1 / 2 < r then n + 1 else if even n then n else n + 1)"

text \<open>
  \<open>huge\<close> is the least power of two that no double reaches, \<open>tiny\<close> the least positive
  double. A double with binary exponent \<open>e\<close>, at least \<open>- 1022\<close>, is a multiple of
  \<open>2 powi (e - 52)\<close>; rounding a value to a multiple that reaches \<open>huge\<close> gives infinity.
\<close>

definition huge :: real where
  "huge = 2 ^ 1024"

definition tiny :: real where
  "tiny = 2 powi (- 1074)"

definition fl :: "real \<Rightarrow> jsnum" where
  "fl x =
     (if x = 0 then Fin 0
      else if huge \<le> \<bar>x\<bar> then signed_inf (0 < x)
      else
        let e = max (ilog2 \<bar>x\<bar>) (- 1022);
            q = 2 powi (e - 52);
            y = of_int (round_even (\<bar>x\<bar> / q)) * q
        in if huge \<le> y then signed_inf (0 < x) else Fin (if 0 < x then y else - y))"

text \<open>A number value that is a finite double: rounding leaves it as it is.\<close>

fun isDouble :: "jsnum \<Rightarrow> bool" where
  "isDouble (Fin x) = (fl x = Fin x)"
| "isDouble _ = False"

text \<open>A numeric literal of the source denotes the double nearest to its decimal value.\<close>

definition lit :: "real \<Rightarrow> jsnum" where
  "lit x = fl x"

fun js_neg :: "jsnum \<Rightarrow> jsnum" where
  "js_neg (Fin a) = Fin (- a)"
| "js_neg PosInf = NegInf"
| "js_neg NegInf = PosInf"
| "js_neg NaN = NaN"

fun js_add :: "jsnum \<Rightarrow> jsnum \<Rightarrow> jsnum" where
  "js_add (Fin a) (Fin b) = fl (a + b)"
| "js_add NaN _ = NaN"
| "js_add _ NaN = NaN"
| "js_add PosInf NegInf = NaN"
| "js_add NegInf PosInf = NaN"
| "js_add PosInf _ = PosInf"
| "js_add _ PosInf = PosInf"
| "js_add NegInf _ = NegInf"
| "js_add _ NegInf = NegInf"

definition js_sub :: "jsnum \<Rightarrow> jsnum \<Rightarrow> jsnum" where
  "js_sub a b = js_add a (js_neg b)"

fun js_mul :: "jsnum \<Rightarrow> jsnum \<Rightarrow> jsnum" where
  "js_mul (Fin a) (Fin b) = fl (a * b)"
| "js_mul NaN _ = NaN"
| "js_mul _ NaN = NaN"
| "js_mul PosInf (Fin b) = (if b = 0 then NaN else signed_inf (0 < b))"
| "js_mul NegInf (Fin b) = (if b = 0 then NaN else signed_inf (b < 0))"
| "js_mul (Fin a) PosInf = (if a = 0 then NaN else signed_inf (0 < a))"
| "js_mul (Fin a) NegInf = (if a = 0 then NaN else signed_inf (a < 0))"
| "js_mul PosInf PosInf = PosInf"
| "js_mul NegInf NegInf = PosInf"
| "js_mul PosInf NegInf = NegInf"
| "js_mul NegInf PosInf = NegInf"

fun js_div :: "jsnum \<Rightarrow> jsnum \<Rightarrow> jsnum" where
  "js_div (Fin a) (Fin b) =
     (if b = 0 then (if a = 0 then NaN else signed_inf (0 < a)) else fl (a / b))"
| "js_div NaN _ = NaN"
| "js_div _ NaN = NaN"
| "js_div (Fin a) PosInf = Fin 0"
| "js_div (Fin a) NegInf = Fin 0"
| "js_div PosInf (Fin b) = signed_inf (0 \<le> b)"
| "js_div NegInf (Fin b) = signed_inf (b < 0)"
| "js_div PosInf PosInf = NaN"
| "js_div PosInf NegInf = NaN"
| "js_div NegInf PosInf = NaN"
| "js_div NegInf NegInf = NaN"

text \<open>The comparison \<^verbatim>\<open>a < b\<close> on numbers: false as soon as one side is \<open>NaN\<close>.\<close>

fun js_less :: "jsnum \<Rightarrow> jsnum \<Rightarrow> bool" where
  "js_less (Fin a) (Fin b) = (a < b)"
| "js_less NaN _ = False"
| "js_less _ NaN = False"
| "js_less NegInf NegInf = False"
| "js_less NegInf _ = True"
| "js_less PosInf _ = False"
| "js_less (Fin a) PosInf = True"
| "js_less (Fin a) NegInf = False"

text \<open>
  \<^verbatim>\<open>Math.min(...xs)\<close> and \<^verbatim>\<open>Math.max(...xs)\<close>: \<open>NaN\<close> if an argument is \<open>NaN\<close>,
  otherwise the least (greatest) argument, starting from \<open>+Infinity\<close> (\<open>-Infinity\<close>), which
  is the result for no argument at all.
\<close>

definition Math_min :: "jsnum list \<Rightarrow> jsnum" where
  "Math_min xs =
     (if NaN \<in> set xs then NaN
      else fold (\<lambda>n lowest. if js_less n lowest then n else lowest) xs PosInf)"

definition Math_max :: "jsnum list \<Rightarrow> jsnum" where
  "Math_max xs =
     (if NaN \<in> set xs then NaN
      else fold (\<lambda>n highest. if js_less highest n then n else highest) xs NegInf)"

subsection \<open>The linear scale\<close>

text \<open>
  \<^verbatim>\<open>rangeMin + (rangeMax - rangeMin) * (value - domainMin) / (domainMax - domainMin)\<close>,
  with JavaScript's grouping: the product is formed first and then divided.
\<close>

definition scaleData :: "jsnum \<Rightarrow> jsnum \<Rightarrow> jsnum \<Rightarrow> jsnum \<Rightarrow> jsnum \<Rightarrow> jsnum" where
  "scaleData val domainMin domainMax rangeMin rangeMax =
     js_add rangeMin
       (js_div (js_mul (js_sub rangeMax rangeMin) (js_sub val domainMin))
               (js_sub domainMax domainMin))"

text \<open>The tick loop: \<^verbatim>\<open>for (let i = 0; i <= 5; i++) ticks.push(lo + (range / 5) * i)\<close>.\<close>

definition axisTicks :: "jsnum \<Rightarrow> jsnum \<Rightarrow> jsnum list" where
  "axisTicks lo width =
     map (\<lambda>i. js_add lo (js_mul (js_div width (Fin 5)) (Fin (real i)))) [0..<6]"

definition chartWidth :: jsnum where "chartWidth = Fin 700"
definition chartHeight :: jsnum where "chartHeight = Fin 400"
definition padding :: jsnum where "padding = Fin 50"

subsection \<open>Number formatting\<close>

text \<open>
  \<^verbatim>\<open>Number.prototype.toFixed\<close> and \<^verbatim>\<open>Number.prototype.toExponential\<close> are defined by
  ECMA-262 on the mathematical value of the number: the digits are those of the integer
  \<open>n\<close> nearest to the scaled value, the larger one on a tie. Two conversions are
  parameters of the model: the shortest decimal that reads back as the same double
  (\<^verbatim>\<open>Number::toString\<close> of a finite value) and the reading of a string as a number.
\<close>

record js_host =
  NumberToString :: "real \<Rightarrow> string"
  StringToNumber :: "string \<Rightarrow> jsnum"

fun Number_toString :: "js_host \<Rightarrow> jsnum \<Rightarrow> string" where
  "Number_toString h NaN = ''NaN''"
| "Number_toString h PosInf = ''Infinity''"
| "Number_toString h NegInf = ''-Infinity''"
| "Number_toString h (Fin x) = NumberToString h x"

definition digit_char :: "nat \<Rightarrow> char" where
  "digit_char d = ''0123456789'' ! d"

fun decimal :: "nat \<Rightarrow> string" where
  "decimal n = (if n < 10 then [digit_char n] else decimal (n div 10) @ [digit_char (n mod 10)])"

declare decimal.simps [simp del]

definition round_half_up :: "real \<Rightarrow> nat" where
  "round_half_up x = nat \<lfloor>x + 1 / 2\<rfloor>"

text \<open>\<open>scale10 x k\<close> is \<open>x\<close> times the \<open>k\<close>-th power of ten, for an integer \<open>k\<close>.\<close>

definition scale10 :: "real \<Rightarrow> int \<Rightarrow> real" where
  "scale10 x k = (if 0 \<le> k then x * 10 ^ nat k else x / 10 ^ nat (- k))"

text \<open>
  \<open>toFixed_digits f x\<close>, for a non-negative \<open>x\<close> below \<open>10 ^ 21\<close>: the digits of the
  integer nearest to \<open>x * 10 ^ f\<close>, padded with zeros to \<open>f + 1\<close> digits, with the point
  before the last \<open>f\<close> of them.
\<close>

definition toFixed_digits :: "nat \<Rightarrow> real \<Rightarrow> string" where
  "toFixed_digits f x =
     (let m = decimal (round_half_up (x * 10 ^ f)) in
      if f = 0 then m
      else let m = (if length m \<le> f then replicate (f + 1 - length m) (CHR ''0'') @ m else m);
               k = length m
           in take (k - f) m @ ''.'' @ drop (k - f) m)"

fun toFixed :: "js_host \<Rightarrow> nat \<Rightarrow> jsnum \<Rightarrow> string" where
  "toFixed h f (Fin x) =
     (let s = (if x < 0 then ''-'' else []); x = \<bar>x\<bar> in
      if 10 ^ 21 \<le> x then s @ NumberToString h x else s @ toFixed_digits f x)"
| "toFixed h f v = Number_toString h v"

text \<open>
  \<open>ilog10 x\<close>, for a positive \<open>x\<close>, is the integer \<open>e\<close> with \<open>10 ^ e \<le> x < 10 ^ (e + 1)\<close>.
\<close>

function ilog10 :: "real \<Rightarrow> int" where
  "ilog10 x =
     (if x \<le> 0 then 0
      else if 10 \<le> x then ilog10 (x / 10) + 1
      else if x < 1 then ilog10 (x * 10) - 1
      else 0)"
  by pat_completeness auto

termination ilog10
proof (relation "measure (\<lambda>x. if 1 \<le> x then nat \<lfloor>x\<rfloor> else nat \<lceil>1 / x\<rceil> + 10)", goal_cases)
  case 1
  show ?case by simp
next
  case (2 x)
  have "x / 10 \<le> x - 9" using 2 by simp
  then have "\<lfloor>x / 10\<rfloor> \<le> \<lfloor>x - 9\<rfloor>" by (rule floor_mono)
  also have "\<dots> = \<lfloor>x\<rfloor> - 9" by linarith
  finally have "\<lfloor>x / 10\<rfloor> < \<lfloor>x\<rfloor>" by simp
  moreover have "0 < \<lfloor>x\<rfloor>" using 2 by linarith
  ultimately have "nat \<lfloor>x / 10\<rfloor> < nat \<lfloor>x\<rfloor>" by linarith
  then show ?case using 2 by simp
next
  case (3 x)
  show ?case
  proof (cases "1 \<le> x * 10")
    case True
    have "x * 10 < 10" using 3 by simp
    then have "nat \<lfloor>x * 10\<rfloor> < 10" by linarith
    then show ?thesis using 3 True by simp
  next
    case False
    define y where "y = 1 / x"
    have y: "10 < y" using 3 False by (simp add: y_def field_simps)
    have e: "1 / (x * 10) = y / 10" by (simp add: y_def)
    have "y / 10 \<le> y - 9" using y by simp
    then have "\<lceil>y / 10\<rceil> \<le> \<lceil>y - 9\<rceil>" by (rule ceiling_mono)
    also have "\<dots> = \<lceil>y\<rceil> - 9" by linarith
    finally have "\<lceil>y / 10\<rceil> < \<lceil>y\<rceil>" by simp
    moreover have "0 < \<lceil>y\<rceil>" using y by linarith
    ultimately have "nat \<lceil>1 / (x * 10)\<rceil> < nat \<lceil>1 / x\<rceil>" unfolding e y_def by linarith
    then show ?thesis using 3 False by simp
  qed
qed

declare ilog10.simps [simp del]

text \<open>
  \<open>exponential_parts f x\<close>, for a positive \<open>x\<close>: the integers \<open>n\<close> and \<open>e\<close> of ECMA-262 with
  \<open>10 ^ f \<le> n < 10 ^ (f + 1)\<close> and \<open>n * 10 ^ (e - f)\<close> nearest to \<open>x\<close>, the larger on a tie.
  Rounding at the exponent of \<open>x\<close> may reach \<open>10 ^ (f + 1)\<close>; that value is \<open>10 ^ f\<close> at
  the next exponent.
\<close>

definition exponential_parts :: "nat \<Rightarrow> real \<Rightarrow> nat \<times> int" where
  "exponential_parts f x =
     (let e = ilog10 x; n = round_half_up (scale10 x (int f - e)) in
      if n = 10 ^ (f + 1) then (10 ^ f, e + 1) else (n, e))"

definition toExponential_digits :: "nat \<Rightarrow> real \<Rightarrow> string" where
  "toExponential_digits f x =
     (let (m, e) = (if x = 0 then (replicate (f + 1) (CHR ''0''), 0)
                    else (let (n, e) = exponential_parts f x in (decimal n, e)));
          m = (if f \<noteq> 0 then take 1 m @ ''.'' @ drop 1 m else m);
          (c, d) = (if e = 0 then (''+'', ''0'')
                    else ((if 0 < e then ''+'' else ''-''), decimal (nat \<bar>e\<bar>)))
      in m @ ''e'' @ c @ d)"

fun toExponential :: "js_host \<Rightarrow> nat \<Rightarrow> jsnum \<Rightarrow> string" where
  "toExponential h f (Fin x) =
     (let s = (if x < 0 then ''-'' else []); x = \<bar>x\<bar> in s @ toExponential_digits f x)"
| "toExponential h f v = Number_toString h v"

subsection \<open>Values, measurement points and the constant tables\<close>

text \<open>
  A string is the list of its UTF-16 code units, which is what JavaScript compares and
  sorts by. The model has the code units below 256; every string literal of the source
  is within them.

  A value is a number, a string, \<^verbatim>\<open>undefined\<close>, or a member that a plain object inherits
  from \<^verbatim>\<open>Object.prototype\<close>: one of its functions, or for \<^verbatim>\<open>__proto__\<close> that prototype
  object itself. Such a member is truthy, converts to the number \<open>NaN\<close> and has no method
  \<^verbatim>\<open>toExponential\<close>.
\<close>

datatype jsval = Num jsnum | Str string | Undefined | Inherited string

definition Object_prototype_keys :: "string list" where
  "Object_prototype_keys =
     [''constructor'', ''__defineGetter__'', ''__defineSetter__'', ''hasOwnProperty'',
      ''__lookupGetter__'', ''__lookupSetter__'', ''isPrototypeOf'', ''propertyIsEnumerable'',
      ''toString'', ''valueOf'', ''__proto__'', ''toLocaleString'']"

fun truthy :: "jsval \<Rightarrow> bool" where
  "truthy (Num n) = (n \<noteq> Fin 0 \<and> n \<noteq> NaN)"
| "truthy (Str s) = (s \<noteq> [])"
| "truthy Undefined = False"
| "truthy (Inherited k) = True"

text \<open>
  A plain object with string values, given by its own properties. The member access
  \<^verbatim>\<open>obj[key]\<close> finds an own property first and a member of \<^verbatim>\<open>Object.prototype\<close>
  otherwise. The assignment \<^verbatim>\<open>obj[key] = v\<close> of a string creates or overwrites an own
  property, except for the key \<^verbatim>\<open>__proto__\<close> when the object has no own property of that
  name: then the inherited setter is called, which ignores a value that is not an object,
  and nothing is stored.
\<close>

definition obj_get :: "(string \<rightharpoonup> string) \<Rightarrow> string \<Rightarrow> jsval" where
  "obj_get obj key =
     (case obj key of
        Some v \<Rightarrow> Str v
      | None \<Rightarrow> if key \<in> set Object_prototype_keys then Inherited key else Undefined)"

definition obj_put :: "(string \<rightharpoonup> string) \<Rightarrow> string \<Rightarrow> string \<Rightarrow> (string \<rightharpoonup> string)" where
  "obj_put obj key v =
     (if key = ''__proto__'' \<and> obj key = None then obj else obj(key \<mapsto> v))"

text \<open>
  A snapshot document as \<^verbatim>\<open>onSnapshot\<close> builds it: the document id and the five fields
  of the seed data. \<open>getProp d key\<close> is the computed member access \<^verbatim>\<open>d[key]\<close>.
\<close>

record point =
  doc_id :: string
  source_file :: string
  current :: jsnum
  intensity :: jsnum
  wavelength :: jsnum
  light_response :: jsnum

definition getProp :: "point \<Rightarrow> string \<Rightarrow> jsval" where
  "getProp d key =
     (if key = ''id'' then Str (doc_id d)
      else if key = ''source_file'' then Str (source_file d)
      else if key = ''current'' then Num (current d)
      else if key = ''intensity'' then Num (intensity d)
      else if key = ''wavelength'' then Num (wavelength d)
      else if key = ''light_response'' then Num (light_response d)
      else if key \<in> set Object_prototype_keys then Inherited key
      else Undefined)"

fun ToNumber :: "js_host \<Rightarrow> jsval \<Rightarrow> jsnum" where
  "ToNumber h (Num n) = n"
| "ToNumber h (Str s) = StringToNumber h s"
| "ToNumber h Undefined = NaN"
| "ToNumber h (Inherited k) = NaN"

text \<open>
  \<^verbatim>\<open>Y_AXIS_OPTIONS\<close> without the icons. The superscript two of the labels is the code
  unit \<open>0xB2\<close>.
\<close>

record axis_option =
  opt_key :: string
  opt_label :: string

definition Y_AXIS_OPTIONS :: "axis_option list" where
  "Y_AXIS_OPTIONS =
     [\<lparr>opt_key = ''light_response'',
       opt_label = ''Light Response (A/uWatt/cm'' @ [CHR 0xB2] @ ''/nm)''\<rparr>,
      \<lparr>opt_key = ''current'', opt_label = ''Current (A)''\<rparr>,
      \<lparr>opt_key = ''intensity'',
       opt_label = ''Intensity (uWatt/cm'' @ [CHR 0xB2] @ ''/nm)''\<rparr>]"

definition PLOT_COLORS :: "string list" where
  "PLOT_COLORS =
     [''#ef4444'', ''#3b82f6'', ''#10b981'', ''#f97316'', ''#a855f7'',
      ''#06b6d4'', ''#eab308'', ''#ec4899'', ''#84cc16'', ''#6366f1'']"

subsection \<open>Arrays, sets and objects\<close>

text \<open>
  \<^verbatim>\<open>Array.prototype.sort(cmp)\<close> is stable and places \<open>a\<close> after \<open>b\<close> when \<open>cmp(a, b) > 0\<close>;
  a \<open>NaN\<close> from the comparator counts as \<open>0\<close>. It is modelled by a stable insertion
  sort, which is the result of every conforming engine when the comparator is a
  consistent order (here: when the wavelengths are finite).
\<close>

fun insert_sorted :: "('a \<Rightarrow> 'a \<Rightarrow> jsnum) \<Rightarrow> 'a \<Rightarrow> 'a list \<Rightarrow> 'a list" where
  "insert_sorted cmp a [] = [a]"
| "insert_sorted cmp a (b # bs) =
     (if js_less (Fin 0) (cmp a b) then b # insert_sorted cmp a bs else a # b # bs)"

definition Array_sort :: "('a \<Rightarrow> 'a \<Rightarrow> jsnum) \<Rightarrow> 'a list \<Rightarrow> 'a list" where
  "Array_sort cmp xs = foldr (insert_sorted cmp) xs []"

text \<open>\<^verbatim>\<open>[...new Set(xs)]\<close>: the distinct elements in the order of their first occurrence.\<close>

definition Set_values :: "'a list \<Rightarrow> 'a list" where
  "Set_values xs = fold (\<lambda>x acc. if x \<in> set acc then acc else acc @ [x]) xs []"

text \<open>\<^verbatim>\<open>xs.join(sep)\<close> on an array of strings.\<close>

fun join :: "string \<Rightarrow> string list \<Rightarrow> string" where
  "join sep [] = []"
| "join sep [x] = x"
| "join sep (x # y # ys) = x @ sep @ join sep (y # ys)"

text \<open>The first exception thrown while an array of elements is built aborts the whole.\<close>

datatype js_error = TypeError

fun collect :: "(js_error + 'a) list \<Rightarrow> js_error + 'a list" where
  "collect [] = Inr []"
| "collect (Inl e # _) = Inl e"
| "collect (Inr x # rs) = (case collect rs of Inl e \<Rightarrow> Inl e | Inr xs \<Rightarrow> Inr (x # xs))"

subsection \<open>The component SvgLineChart\<close>

text \<open>
  The value of the \<^verbatim>\<open>useMemo\<close> callback: \<^verbatim>\<open>{}\<close> (here \<open>None\<close>) for no data, otherwise
  the two scales, the two tick arrays and the label. \<^verbatim>\<open>Math.min\<close>, \<^verbatim>\<open>Math.max\<close> and the
  subtraction in \<^verbatim>\<open>scaleData\<close> convert their arguments to numbers.
\<close>

record chart_scales =
  xScale :: "jsnum \<Rightarrow> jsnum"
  yScale :: "jsnum \<Rightarrow> jsnum"
  xAxisTicks :: "jsnum list"
  yAxisTicks :: "jsnum list"
  yAxisLabel :: string

definition metricLabel :: "string \<Rightarrow> string" where
  "metricLabel selectedMetric =
     (case find (\<lambda>opt. opt_key opt = selectedMetric) Y_AXIS_OPTIONS of
        None \<Rightarrow> []
      | Some opt \<Rightarrow> opt_label opt)"

definition chartScales :: "js_host \<Rightarrow> point list \<Rightarrow> string \<Rightarrow> chart_scales option" where
  "chartScales h data selectedMetric =
     (if length data = 0 then None
      else
        let xValues = map wavelength data;
            yValues = map (\<lambda>d. getProp d selectedMetric) data;
            xMin = Math_min xValues;
            xMax = Math_max xValues;
            yMin = Math_min (map (ToNumber h) yValues);
            yMax = Math_max (map (ToNumber h) yValues);
            xRange = js_sub xMax xMin;
            yRange = js_sub yMax yMin
        in Some
          \<lparr>xScale = (\<lambda>x. scaleData x xMin xMax padding (js_sub chartWidth padding)),
           yScale = (\<lambda>y. scaleData y yMin yMax (js_sub chartHeight padding) padding),
           xAxisTicks = axisTicks xMin xRange,
           yAxisTicks = axisTicks yMin yRange,
           yAxisLabel = metricLabel selectedMetric\<rparr>)"

text \<open>
  \<^verbatim>\<open>dataByPmt\<close>: the object built by \<^verbatim>\<open>pmtList.reduce\<close> from the empty object, which
  stores under each element of \<^verbatim>\<open>pmtList\<close> that source's points sorted by wavelength.
  \<open>dataByPmt data pmtList p\<close> is the array that the member access \<^verbatim>\<open>dataByPmt[p]\<close>
  yields when the reduction has stored one under \<open>p\<close>, and \<open>None\<close> otherwise. An array
  assigned under \<^verbatim>\<open>__proto__\<close> becomes the prototype of the object, and the member access
  \<^verbatim>\<open>__proto__\<close> yields it back, so that key is like every other here. Where nothing was
  stored, the access yields \<^verbatim>\<open>undefined\<close> or an inherited member; none of these has a
  method \<^verbatim>\<open>map\<close>, so using it as \<^verbatim>\<open>pmtData\<close> throws a \<^verbatim>\<open>TypeError\<close>.
\<close>

definition dataByPmt :: "point list \<Rightarrow> string list \<Rightarrow> (string \<rightharpoonup> point list)" where
  "dataByPmt data pmtList =
     fold (\<lambda>pmt acc.
             acc(pmt \<mapsto> Array_sort (\<lambda>a b. js_sub (wavelength a) (wavelength b))
                            (filter (\<lambda>d. source_file d = pmt) data)))
          pmtList Map.empty"

text \<open>What the component returns: the placeholder panel or the chart.\<close>

record grid_tick =
  tick_at :: jsnum
  tick_text :: string

record circle =
  cx :: jsnum
  cy :: jsnum
  fill :: jsval
  title :: string

record plot_line =
  line_key :: string
  stroke :: jsval
  points :: string
  circles :: "circle list"

record chart =
  heading :: string
  yGrid :: "grid_tick list"
  xGrid :: "grid_tick list"
  yAxisText :: string
  plots :: "plot_line list"

datatype element = Placeholder string | Chart chart

text \<open>
  The tooltip of a marker. \<^verbatim>\<open>d[selectedMetric].toExponential(3)\<close> throws a
  \<^verbatim>\<open>TypeError\<close> when the member is \<^verbatim>\<open>undefined\<close> or a string.
\<close>

definition markerTitle :: "js_host \<Rightarrow> string \<Rightarrow> string \<Rightarrow> point \<Rightarrow> js_error + string" where
  "markerTitle h pmt selectedMetric d =
     (case getProp d selectedMetric of
        Num v \<Rightarrow>
          Inr (pmt @ '': Wavelength='' @ toFixed h 1 (wavelength d) @ ''nm, '' @
               selectedMetric @ ''='' @ toExponential h 3 v)
      | _ \<Rightarrow> Inl TypeError)"

definition marker ::
  "js_host \<Rightarrow> chart_scales \<Rightarrow> string \<Rightarrow> jsval \<Rightarrow> string \<Rightarrow> point \<Rightarrow> js_error + circle" where
  "marker h sc pmt color selectedMetric d =
     (case markerTitle h pmt selectedMetric d of
        Inl e \<Rightarrow> Inl e
      | Inr t \<Rightarrow>
          Inr \<lparr>cx = xScale sc (wavelength d),
               cy = yScale sc (ToNumber h (getProp d selectedMetric)),
               fill = color, title = t\<rparr>)"

definition plotLine ::
  "js_host \<Rightarrow> chart_scales \<Rightarrow> (string \<rightharpoonup> point list) \<Rightarrow> (string \<rightharpoonup> string) \<Rightarrow> string \<Rightarrow>
   nat \<times> string \<Rightarrow> js_error + plot_line" where
  "plotLine h sc byPmt colorMap selectedMetric ip =
     (let index = fst ip; pmt = snd ip in
      case byPmt pmt of
        None \<Rightarrow> Inl TypeError
      | Some pmtData \<Rightarrow>
          let found = obj_get colorMap pmt;
              color = (if truthy found then found
                       else Str (PLOT_COLORS ! (index mod length PLOT_COLORS)));
              linePath = join '' ''
                (map (\<lambda>d. Number_toString h (xScale sc (wavelength d)) @ '','' @
                           Number_toString h (yScale sc (ToNumber h (getProp d selectedMetric))))
                     pmtData)
          in (case collect (map (marker h sc pmt color selectedMetric) pmtData) of
                Inl e \<Rightarrow> Inl e
              | Inr cs \<Rightarrow>
                  Inr \<lparr>line_key = pmt, stroke = color, points = linePath, circles = cs\<rparr>))"

definition SvgLineChart ::
  "js_host \<Rightarrow> point list \<Rightarrow> string \<Rightarrow> string list \<Rightarrow> (string \<rightharpoonup> string) \<Rightarrow> js_error + element" where
  "SvgLineChart h data selectedMetric pmtList colorMap =
     (let memo = chartScales h data selectedMetric in
      if length data = 0 then Inr (Placeholder ''No data selected or available to plot.'')
      else
        case memo of
          None \<Rightarrow> Inl TypeError
        | Some sc \<Rightarrow>
            let byPmt = dataByPmt data pmtList;
                yg = map (\<lambda>tick. \<lparr>tick_at = yScale sc tick, tick_text = toExponential h 2 tick\<rparr>)
                         (yAxisTicks sc);
                xg = map (\<lambda>tick. \<lparr>tick_at = xScale sc tick, tick_text = toFixed h 0 tick\<rparr>)
                         (xAxisTicks sc)
            in (case collect (map (plotLine h sc byPmt colorMap selectedMetric)
                                  (enumerate 0 pmtList)) of
                  Inl e \<Rightarrow> Inl e
                | Inr ls \<Rightarrow>
                    Inr (Chart \<lparr>heading = yAxisLabel sc @ '' vs. Wavelength (nm)'',
                                yGrid = yg, xGrid = xg, yAxisText = yAxisLabel sc,
                                plots = ls\<rparr>)))"

subsection \<open>The host component App\<close>

text \<open>
  The derived state: the sorted distinct source list, the colour map built by
  \<^verbatim>\<open>uniquePmts.reduce\<close> from the empty object, and the data of the selected sources.
  The default \<^verbatim>\<open>sort()\<close> orders strings by their code units.
\<close>

definition uniquePmts :: "point list \<Rightarrow> string list" where
  "uniquePmts allData = sort (Set_values (map source_file allData))"

definition pmtColorMap :: "string list \<Rightarrow> (string \<rightharpoonup> string)" where
  "pmtColorMap pmts =
     fold (\<lambda>ip acc. obj_put acc (snd ip) (PLOT_COLORS ! (fst ip mod length PLOT_COLORS)))
          (enumerate 0 pmts) Map.empty"

definition filteredData :: "point list \<Rightarrow> string list \<Rightarrow> point list" where
  "filteredData allData selectedPmts = filter (\<lambda>d. source_file d \<in> set selectedPmts) allData"

record app_state =
  allData :: "point list"
  selectedPmts :: "string list"
  selectedMetric :: string
  isLoading :: bool

text \<open>
  The success callback of \<^verbatim>\<open>onSnapshot\<close>, with the functional update of the selection
  applied to the previous selection.
\<close>

definition onSnapshot :: "point list \<Rightarrow> app_state \<Rightarrow> app_state" where
  "onSnapshot data s =
     (let pmts = sort (Set_values (map source_file data));
          prev = selectedPmts s
      in s\<lparr>allData := data,
            selectedPmts :=
              (if length prev = 0 then take (min (length pmts) 5) pmts
               else filter (\<lambda>p. p \<in> set pmts) prev),
            isLoading := False\<rparr>)"

definition handlePmtToggle :: "string \<Rightarrow> app_state \<Rightarrow> app_state" where
  "handlePmtToggle pmt s =
     s\<lparr>selectedPmts :=
         (if pmt \<in> set (selectedPmts s) then filter (\<lambda>p. p \<noteq> pmt) (selectedPmts s)
          else selectedPmts s @ [pmt])\<rparr>"

definition handleSelectAll :: "app_state \<Rightarrow> app_state" where
  "handleSelectAll s = s\<lparr>selectedPmts := uniquePmts (allData s)\<rparr>"

definition handleClearSelection :: "app_state \<Rightarrow> app_state" where
  "handleClearSelection s = s\<lparr>selectedPmts := []\<rparr>"

text \<open>The chart as \<^verbatim>\<open>App\<close> renders it from its state.\<close>

definition appChart :: "js_host \<Rightarrow> app_state \<Rightarrow> js_error + element" where
  "appChart h s =
     SvgLineChart h (filteredData (allData s) (selectedPmts s)) (selectedMetric s)
       (selectedPmts s) (pmtColorMap (uniquePmts (allData s)))"

subsection \<open>The seed data\<close>

text \<open>
  \<^verbatim>\<open>initialData\<close>, each row with the document id \<^verbatim>\<open>entry_<index>\<close> under which the
  seeding stores it, that is, as a snapshot of the freshly seeded collection delivers it.
\<close>

definition initialData :: "point list" where
  "initialData =
     [
      \<lparr>doc_id = ''entry_0'', source_file = ''J23-1062.txt'',
       current = lit (- 47751 / 10 ^ 14), intensity = lit (17641 / 100),
       wavelength = lit (205988 / 1000), light_response = lit (27068 / 10 ^ 16)\<rparr>,
      \<lparr>doc_id = ''entry_1'', source_file = ''J23-1062.txt'',
       current = lit (- 70588 / 10 ^ 14), intensity = lit (319546 / 1000),
       wavelength = lit (216824 / 1000), light_response = lit (2209 / 10 ^ 15)\<rparr>,
      \<lparr>doc_id = ''entry_2'', source_file = ''J23-1062.txt'',
       current = lit (- 11942 / 10 ^ 13), intensity = lit (581395 / 1000),
       wavelength = lit (22652 / 100), light_response = lit (20539 / 10 ^ 16)\<rparr>,
      \<lparr>doc_id = ''entry_3'', source_file = ''J23-1062.txt'',
       current = lit (- 21352 / 10 ^ 13), intensity = lit (103277 / 100),
       wavelength = lit (237356 / 1000), light_response = lit (20674 / 10 ^ 16)\<rparr>,
      \<lparr>doc_id = ''entry_4'', source_file = ''J23-1062.txt'',
       current = lit (- 35917 / 10 ^ 13), intensity = lit (153444 / 100),
       wavelength = lit (248192 / 1000), light_response = lit (23407 / 10 ^ 16)\<rparr>,
      \<lparr>doc_id = ''entry_5'', source_file = ''A24-1080.txt'',
       current = lit (- 13444 / 10 ^ 12), intensity = lit (368272 / 100),
       wavelength = lit (2807 / 10), light_response = lit (36506 / 10 ^ 16)\<rparr>,
      \<lparr>doc_id = ''entry_6'', source_file = ''A24-1080.txt'',
       current = lit (- 17417 / 10 ^ 12), intensity = lit (443929 / 100),
       wavelength = lit (291536 / 1000), light_response = lit (39235 / 10 ^ 16)\<rparr>,
      \<lparr>doc_id = ''entry_7'', source_file = ''A24-1080.txt'',
       current = lit (- 21577 / 10 ^ 12), intensity = lit (465517 / 100),
       wavelength = lit (302372 / 1000), light_response = lit (4635 / 10 ^ 15)\<rparr>,
      \<lparr>doc_id = ''entry_8'', source_file = ''A24-1080.txt'',
       current = lit (- 26307 / 10 ^ 12), intensity = lit (51352 / 10),
       wavelength = lit (313208 / 1000), light_response = lit (51229 / 10 ^ 16)\<rparr>,
      \<lparr>doc_id = ''entry_9'', source_file = ''A24-1080.txt'',
       current = lit (- 30302 / 10 ^ 12), intensity = lit (541659 / 100),
       wavelength = lit (323474 / 1000), light_response = lit (55942 / 10 ^ 16)\<rparr>,
      \<lparr>doc_id = ''entry_10'', source_file = ''A24-1080.txt'',
       current = lit (- 33499 / 10 ^ 12), intensity = lit (658964 / 100),
       wavelength = lit (333739 / 1000), light_response = lit (50837 / 10 ^ 16)\<rparr>]"

text \<open>
  A host for evaluating examples. None of the facts evaluated below involves either of
  the two conversions, so they hold for every host.
\<close>

definition sample_host :: js_host where
  "sample_host = \<lparr>NumberToString = (\<lambda>x. ''?''), StringToNumber = (\<lambda>s. NaN)\<rparr>"

subsection \<open>The tooltip as the specification words it\<close>


section \<open>Properties\<close>

subsection \<open>Rounding to a double\<close>

text \<open>The definitions unfolded when an operation is evaluated on concrete doubles.\<close>

lemmas fl_eval = fl_def ilog2.simps round_even_def Let_def signed_inf_def huge_def lit_def

lemma ilog2_bounds:
  "0 < x \<Longrightarrow> 2 powi ilog2 x \<le> x \<and> x < 2 powi (ilog2 x + 1)"
proof (induction x rule: ilog2.induct)
  case (1 x)
  show ?case
  proof (cases "2 \<le> x")
    case True
    then have e: "ilog2 x = ilog2 (x / 2) + 1" using 1(3) by (subst ilog2.simps) simp
    have "2 powi ilog2 (x / 2) \<le> x / 2 \<and> x / 2 < 2 powi (ilog2 (x / 2) + 1)"
      using 1(1) True 1(3) by simp
    then show ?thesis unfolding e by (simp add: power_int_add field_simps)
  next
    case False
    show ?thesis
    proof (cases "x < 1")
      case True
      then have e: "ilog2 x = ilog2 (x * 2) - 1"
        using 1(3) False by (subst ilog2.simps) simp
      have "2 powi ilog2 (x * 2) \<le> x * 2 \<and> x * 2 < 2 powi (ilog2 (x * 2) + 1)"
        using 1(2) True False 1(3) by simp
      then show ?thesis unfolding e by (simp add: power_int_add power_int_diff field_simps)
    next
      case nl: False
      then have "ilog2 x = 0" using False 1(3) by (subst ilog2.simps) simp
      then show ?thesis using False nl by simp
    qed
  qed
qed

lemma round_even_near: "\<bar>of_int (round_even x) - x\<bar> \<le> 1 / 2"
  unfolding round_even_def Let_def by (auto; linarith)

lemma round_even_of_int: "round_even (of_int k) = k"
  by (simp add: round_even_def)

lemma round_even_ge: "of_int k \<le> x \<Longrightarrow> k \<le> round_even x"
proof -
  assume "of_int k \<le> x"
  then have "k \<le> \<lfloor>x\<rfloor>" by (simp add: le_floor_iff)
  then show ?thesis unfolding round_even_def Let_def by auto
qed

lemma round_even_le: "x \<le> of_int k \<Longrightarrow> round_even x \<le> k"
proof (cases "x = of_int k")
  case True
  then show ?thesis by (simp add: round_even_of_int)
next
  case False
  assume "x \<le> of_int k"
  with False have "x < of_int k" by simp
  then have "\<lfloor>x\<rfloor> < k" by (simp add: floor_less_iff)
  then show ?thesis unfolding round_even_def Let_def by auto
qed

lemma fl_Fin_D:
  assumes "fl x = Fin y" and "x \<noteq> 0"
  shows "\<exists>e m. - 1022 \<le> e \<and> (e = - 1022 \<and> ilog2 \<bar>x\<bar> \<le> - 1022 \<or> e = ilog2 \<bar>x\<bar>)
          \<and> m = round_even (\<bar>x\<bar> / 2 powi (e - 52))
          \<and> y = (if 0 < x then 1 else - 1) * (of_int m * 2 powi (e - 52))
          \<and> \<bar>x\<bar> < huge"
proof -
  define e where "e = max (ilog2 \<bar>x\<bar>) (- 1022)"
  define m where "m = round_even (\<bar>x\<bar> / 2 powi (e - 52))"
  have lt: "\<bar>x\<bar> < huge"
    using assms by (auto simp: fl_def signed_inf_def split: if_splits)
  then have "y = (if 0 < x then 1 else - 1) * (of_int m * 2 powi (e - 52))"
    using assms by (auto simp: fl_def Let_def signed_inf_def e_def m_def split: if_splits)
  moreover have "- 1022 \<le> e" by (simp add: e_def)
  moreover have "e = - 1022 \<and> ilog2 \<bar>x\<bar> \<le> - 1022 \<or> e = ilog2 \<bar>x\<bar>" by (auto simp: e_def)
  ultimately show ?thesis using m_def lt by blast
qed

lemma fl_zero: "fl 0 = Fin 0"
  by (simp add: fl_def)

lemma tiny_pos: "0 < tiny"
  by (simp only: tiny_def zero_less_power_int zero_less_numeral)

lemma unit_tiny:
  assumes "- 1022 \<le> e"
  shows "2 powi (e - 52) = of_int (2 ^ nat (e + 1022)) * tiny"
proof -
  have "(2::real) powi (e - 52) = 2 powi ((e + 1022) + (- 1074))" by simp
  also have "\<dots> = 2 powi (e + 1022) * 2 powi (- 1074)"
    by (subst power_int_add) simp_all
  also have "(2::real) powi (e + 1022) = 2 ^ nat (e + 1022)"
    using assms by (simp add: power_int_def)
  finally show ?thesis unfolding tiny_def by simp
qed

lemma fl_grid:
  assumes "fl x = Fin y"
  shows "y / tiny \<in> \<int>"
proof (cases "x = 0")
  case True
  with assms show ?thesis by (simp add: fl_zero)
next
  case False
  from fl_Fin_D [OF assms False] obtain e m where e: "- 1022 \<le> e"
    and y: "y = (if 0 < x then 1 else - 1) * (of_int m * 2 powi (e - 52))"
    by blast
  have "y = of_int ((if 0 < x then 1 else - 1) * (m * 2 ^ nat (e + 1022))) * tiny"
    unfolding y unit_tiny [OF e] by simp
  then have "y / tiny = of_int ((if 0 < x then 1 else - 1) * (m * 2 ^ nat (e + 1022)))"
    using tiny_pos by simp
  then show ?thesis by (metis Ints_of_int)
qed

lemma fl_half_unit:
  assumes "fl x = Fin y" and "x \<noteq> 0"
  shows "\<exists>e. \<bar>y - x\<bar> \<le> 2 powi (e - 52) / 2
    \<and> (e = - 1022 \<and> ilog2 \<bar>x\<bar> \<le> - 1022
          \<and> y = (if 0 < x then 1 else - 1) * (of_int (round_even (\<bar>x\<bar> / tiny)) * tiny)
        \<or> e = ilog2 \<bar>x\<bar> \<and> - 1022 \<le> e)"
proof -
  from fl_Fin_D [OF assms] obtain e m where e: "- 1022 \<le> e"
    and c: "e = - 1022 \<and> ilog2 \<bar>x\<bar> \<le> - 1022 \<or> e = ilog2 \<bar>x\<bar>"
    and m: "m = round_even (\<bar>x\<bar> / 2 powi (e - 52))"
    and y: "y = (if 0 < x then 1 else - 1) * (of_int m * 2 powi (e - 52))"
    by blast
  define q :: real where "q = 2 powi (e - 52)"
  have q: "0 < q" by (simp add: q_def)
  have near: "\<bar>of_int m - \<bar>x\<bar> / q\<bar> \<le> 1 / 2" unfolding m q_def by (rule round_even_near)
  have "(of_int m - \<bar>x\<bar> / q) * q = of_int m * q - \<bar>x\<bar>" using q by (simp add: field_simps)
  then have "\<bar>of_int m * q - \<bar>x\<bar>\<bar> = \<bar>of_int m - \<bar>x\<bar> / q\<bar> * \<bar>q\<bar>" by (metis abs_mult)
  also have "\<dots> \<le> 1 / 2 * \<bar>q\<bar>" using near by (intro mult_right_mono) simp_all
  finally have "\<bar>of_int m * q - \<bar>x\<bar>\<bar> \<le> q / 2" using q by simp
  moreover have "\<bar>y - x\<bar> = \<bar>of_int m * q - \<bar>x\<bar>\<bar>"
    unfolding y q_def [symmetric] using assms(2) by (cases "0 < x") auto
  ultimately have b: "\<bar>y - x\<bar> \<le> 2 powi (e - 52) / 2" unfolding q_def by simp
  have "y = (if 0 < x then 1 else - 1) * (of_int (round_even (\<bar>x\<bar> / tiny)) * tiny)"
    if "e = - 1022"
  proof -
    have "(2::real) powi (e - 52) = tiny" unfolding that tiny_def by simp
    then show ?thesis unfolding y m by simp
  qed
  then show ?thesis using b c e by blast
qed

lemma min_normal_tiny: "(2::real) powi (- 1022) = 2 ^ 52 * tiny"
proof -
  have "(2::real) powi (- 1022) = 2 powi (52 + (- 1074))" by simp
  also have "\<dots> = 2 powi 52 * 2 powi (- 1074)" by (subst power_int_add) simp_all
  finally show ?thesis unfolding tiny_def by simp
qed

lemma fl_error_rel:
  assumes "fl x = Fin y" and "2 ^ 52 * tiny \<le> \<bar>x\<bar> \<or> x / tiny \<in> \<int>"
  shows "\<bar>y - x\<bar> \<le> \<bar>x\<bar> / 2 ^ 53"
proof (cases "x = 0")
  case True
  with assms(1) show ?thesis by (simp add: fl_zero)
next
  case False
  then have pos: "0 < \<bar>x\<bar>" by simp
  from fl_half_unit [OF assms(1) False] obtain e where b: "\<bar>y - x\<bar> \<le> 2 powi (e - 52) / 2"
    and c: "e = - 1022 \<and> ilog2 \<bar>x\<bar> \<le> - 1022
          \<and> y = (if 0 < x then 1 else - 1) * (of_int (round_even (\<bar>x\<bar> / tiny)) * tiny)
        \<or> e = ilog2 \<bar>x\<bar> \<and> - 1022 \<le> e"
    by blast
  have normal: "\<bar>y - x\<bar> \<le> \<bar>x\<bar> / 2 ^ 53" if "e = ilog2 \<bar>x\<bar>"
  proof -
    have "2 powi e \<le> \<bar>x\<bar>" unfolding that using ilog2_bounds [OF pos] by simp
    then have "2 powi e / 2 ^ 53 \<le> \<bar>x\<bar> / 2 ^ 53" by (simp add: divide_right_mono)
    moreover have "(2::real) powi (e - 52) / 2 = 2 powi e / 2 ^ 53" by (simp add: power_int_diff)
    ultimately show ?thesis using b by simp
  qed
  show ?thesis
  proof (cases "e = ilog2 \<bar>x\<bar>")
    case True
    then show ?thesis by (rule normal)
  next
    case ne: False
    with c have e: "e = - 1022" and lo: "ilog2 \<bar>x\<bar> \<le> - 1022"
      and y: "y = (if 0 < x then 1 else - 1) * (of_int (round_even (\<bar>x\<bar> / tiny)) * tiny)"
      by auto
    from ne e lo have lt: "ilog2 \<bar>x\<bar> + 1 \<le> - 1022" by simp
    have "\<bar>x\<bar> < 2 powi (ilog2 \<bar>x\<bar> + 1)" using ilog2_bounds [OF pos] by simp
    also have "\<dots> \<le> 2 powi (- 1022)" using lt by (intro power_int_increasing) simp_all
    finally have small: "\<bar>x\<bar> < 2 ^ 52 * tiny" unfolding min_normal_tiny .
    with assms(2) have "x / tiny \<in> \<int>" by simp
    then have "\<bar>x / tiny\<bar> \<in> \<int>" by (rule Ints_abs)
    then have "\<bar>x\<bar> / tiny \<in> \<int>" using tiny_pos by (simp add: abs_divide)
    then obtain k :: int where k: "\<bar>x\<bar> / tiny = of_int k" by (auto elim: Ints_cases)
    have "of_int (round_even (\<bar>x\<bar> / tiny)) * tiny = \<bar>x\<bar>"
      unfolding k round_even_of_int using k [symmetric] tiny_pos by simp
    then have "y = x" unfolding y by (cases "0 < x") auto
    then show ?thesis by simp
  qed
qed

lemma fl_error_abs:
  assumes "fl x = Fin y"
  shows "\<bar>y - x\<bar> \<le> \<bar>x\<bar> / 2 ^ 53 + tiny / 2"
proof (cases "2 ^ 52 * tiny \<le> \<bar>x\<bar> \<or> x = 0")
  case True
  then have "2 ^ 52 * tiny \<le> \<bar>x\<bar> \<or> x / tiny \<in> \<int>" by auto
  from fl_error_rel [OF assms this] show ?thesis using tiny_pos by simp
next
  case False
  then have nz: "x \<noteq> 0" and small: "\<bar>x\<bar> < 2 ^ 52 * tiny" by auto
  from fl_half_unit [OF assms nz] obtain e where b: "\<bar>y - x\<bar> \<le> 2 powi (e - 52) / 2"
    and c: "e = - 1022 \<or> e = ilog2 \<bar>x\<bar> \<and> - 1022 \<le> e"
    by blast
  have "e = - 1022"
  proof (rule ccontr)
    assume "e \<noteq> - 1022"
    with c have e: "e = ilog2 \<bar>x\<bar>" "- 1022 \<le> e" by auto
    have "2 powi (- 1022) \<le> (2::real) powi e" using e(2) by (intro power_int_increasing) simp_all
    also have "\<dots> \<le> \<bar>x\<bar>" unfolding e(1) using ilog2_bounds [of "\<bar>x\<bar>"] nz by simp
    finally show False using small unfolding min_normal_tiny by simp
  qed
  moreover have "(2::real) powi (- 1022 - 52) = tiny" unfolding tiny_def by simp
  ultimately have "\<bar>y - x\<bar> \<le> tiny / 2" using b by simp
  moreover have "0 \<le> \<bar>x\<bar> / 2 ^ 53" by simp
  ultimately show ?thesis by linarith
qed


subsection \<open>Minimum, maximum and the seed data as doubles\<close>

lemma NaN_notin_Fin: "NaN \<notin> set (map Fin rs)"
  by auto

lemma fold_min_Fin:
  "fold (\<lambda>n lowest. if js_less n lowest then n else lowest) (map Fin rs) (Fin a) = Fin (fold min rs a)"
  by (induction rs arbitrary: a) (auto simp: min_def)

lemma fold_max_Fin:
  "fold (\<lambda>n highest. if js_less highest n then n else highest) (map Fin rs) (Fin a) = Fin (fold max rs a)"
  by (induction rs arbitrary: a) (auto simp: max_def)

lemma Math_min_Fin: "rs \<noteq> [] \<Longrightarrow> Math_min (map Fin rs) = Fin (Min (set rs))"
proof (cases rs)
  case Nil
  assume "rs \<noteq> []"
  with Nil show ?thesis by simp
next
  case (Cons r rs')
  have "Math_min (map Fin rs) = fold (\<lambda>n lowest. if js_less n lowest then n else lowest) (map Fin rs') (Fin r)"
    unfolding Math_min_def Cons using NaN_notin_Fin [of "r # rs'"] by simp
  also have "\<dots> = Fin (fold min rs' r)" by (rule fold_min_Fin)
  also have "fold min rs' r = Min (set rs)" unfolding Cons by (rule Min.set_eq_fold [symmetric])
  finally show ?thesis .
qed

lemma Math_max_Fin: "rs \<noteq> [] \<Longrightarrow> Math_max (map Fin rs) = Fin (Max (set rs))"
proof (cases rs)
  case Nil
  assume "rs \<noteq> []"
  with Nil show ?thesis by simp
next
  case (Cons r rs')
  have "Math_max (map Fin rs) = fold (\<lambda>n highest. if js_less highest n then n else highest) (map Fin rs') (Fin r)"
    unfolding Math_max_def Cons using NaN_notin_Fin [of "r # rs'"] by simp
  also have "\<dots> = Fin (fold max rs' r)" by (rule fold_max_Fin)
  also have "fold max rs' r = Max (set rs)" unfolding Cons by (rule Max.set_eq_fold [symmetric])
  finally show ?thesis .
qed

lemma js_sub_Fin: "js_sub (Fin a) (Fin b) = fl (a - b)"
  by (simp add: js_sub_def)

text \<open>The doubles that the literals of the seed data denote.\<close>

lemma initialData_doubles:
  "initialData =
     [
      \<lparr>doc_id = ''entry_0'', source_file = ''J23-1062.txt'',
       current = Fin (- 4618193344993453 / 2 ^ 83), intensity = Fin (6206875080190853 / 2 ^ 45),
       wavelength = Fin (3623779218917163 / 2 ^ 44), light_response = Fin (6701712196675335 / 2 ^ 91)\<rparr>,
      \<lparr>doc_id = ''entry_1'', source_file = ''J23-1062.txt'',
       current = Fin (- 1706713115099149 / 2 ^ 81), intensity = Fin (5621512681748955 / 2 ^ 44),
       wavelength = Fin (3814408146894455 / 2 ^ 44), light_response = Fin (2734609546781405 / 2 ^ 90)\<rparr>,
      \<lparr>doc_id = ''entry_2'', source_file = ''J23-1062.txt'',
       current = Fin (- 5774796855135161 / 2 ^ 82), intensity = Fin (1278501125661655 / 2 ^ 41),
       wavelength = Fin (7969963965562225 / 2 ^ 45), light_response = Fin (5085210093376485 / 2 ^ 91)\<rparr>,
      \<lparr>doc_id = ''entry_3'', source_file = ''J23-1062.txt'',
       current = Fin (- 645324602510289 / 2 ^ 78), intensity = Fin (2271085247636439 / 2 ^ 41),
       wavelength = Fin (1043902727689601 / 2 ^ 42), light_response = Fin (2559317237218595 / 2 ^ 90)\<rparr>,
      \<lparr>doc_id = ''entry_4'', source_file = ''J23-1062.txt'',
       current = Fin (- 8684197732619727 / 2 ^ 81), intensity = Fin (3374269244249211 / 2 ^ 41),
       wavelength = Fin (272889989920981 / 2 ^ 40), light_response = Fin (5795292499910579 / 2 ^ 91)\<rparr>,
      \<lparr>doc_id = ''entry_5'', source_file = ''A24-1080.txt'',
       current = Fin (- 8126399359449537 / 2 ^ 79), intensity = Fin (8098386923686461 / 2 ^ 41),
       wavelength = Fin (4938126622667571 / 2 ^ 44), light_response = Fin (4519223907415209 / 2 ^ 90)\<rparr>,
      \<lparr>doc_id = ''entry_6'', source_file = ''A24-1080.txt'',
       current = Fin (- 5263965250056999 / 2 ^ 78), intensity = Fin (4881050974069719 / 2 ^ 40),
       wavelength = Fin (5128755550644863 / 2 ^ 44), light_response = Fin (2428528872068095 / 2 ^ 89)\<rparr>,
      \<lparr>doc_id = ''entry_7'', source_file = ''A24-1080.txt'',
       current = Fin (- 6521248102456213 / 2 ^ 78), intensity = Fin (2559206772137001 / 2 ^ 39),
       wavelength = Fin (5319384478622155 / 2 ^ 44), light_response = Fin (2868926041043869 / 2 ^ 89)\<rparr>,
      \<lparr>doc_id = ''entry_8'', source_file = ''A24-1080.txt'',
       current = Fin (- 496925180259407 / 2 ^ 74), intensity = Fin (5646212110955315 / 2 ^ 40),
       wavelength = Fin (5510013406599447 / 2 ^ 44), light_response = Fin (6341843027255075 / 2 ^ 90)\<rparr>,
      \<lparr>doc_id = ''entry_9'', source_file = ''A24-1080.txt'',
       current = Fin (- 35774287290979 / 2 ^ 70), intensity = Fin (1488900921973801 / 2 ^ 38),
       wavelength = Fin (5690614788531421 / 2 ^ 44), light_response = Fin (3462642083885137 / 2 ^ 89)\<rparr>,
      \<lparr>doc_id = ''entry_10'', source_file = ''A24-1080.txt'',
       current = Fin (- 632778219238601 / 2 ^ 74), intensity = Fin (7245385802857841 / 2 ^ 40),
       wavelength = Fin (5871198578277351 / 2 ^ 44), light_response = Fin (393332236107193 / 2 ^ 86)\<rparr>]"
  unfolding initialData_def by (simp add: fl_eval)

subsection \<open>Properties of the rounded operations\<close>

lemma huge_powi: "huge = 2 powi 1024"
  by (simp add: huge_def)

lemma fl_sign:
  assumes "fl x = Fin y"
  shows "(0 \<le> x \<longrightarrow> 0 \<le> y) \<and> (x \<le> 0 \<longrightarrow> y \<le> 0)"
proof (cases "x = 0")
  case True
  with assms show ?thesis by (simp add: fl_zero)
next
  case False
  from fl_Fin_D [OF assms False] obtain e m where
    m: "m = round_even (\<bar>x\<bar> / 2 powi (e - 52))"
    and y: "y = (if 0 < x then 1 else - 1) * (of_int m * 2 powi (e - 52))"
    by blast
  have "of_int 0 \<le> \<bar>x\<bar> / 2 powi (e - 52)" by simp
  then have "0 \<le> m" unfolding m by (rule round_even_ge)
  then have "0 \<le> of_int m * (2::real) powi (e - 52)" by simp
  then show ?thesis unfolding y using False by auto
qed

lemma fl_cases_pos: "0 \<le> x \<Longrightarrow> fl x = PosInf \<or> (\<exists>y. fl x = Fin y)"
  by (auto simp: fl_def Let_def signed_inf_def)

lemma fl_finite:
  assumes "\<bar>x\<bar> \<le> 2 powi 1023"
  shows "\<exists>y. fl x = Fin y"
proof (cases "x = 0")
  case True
  then show ?thesis by (simp add: fl_zero)
next
  case False
  then have pos: "0 < \<bar>x\<bar>" by simp
  define e where "e = max (ilog2 \<bar>x\<bar>) (- 1022)"
  define q :: real where "q = 2 powi (e - 52)"
  define m where "m = round_even (\<bar>x\<bar> / q)"
  have q: "0 < q" by (simp add: q_def)
  have "ilog2 \<bar>x\<bar> \<le> 1023"
  proof (rule ccontr)
    assume "\<not> ilog2 \<bar>x\<bar> \<le> 1023"
    then have "1024 \<le> ilog2 \<bar>x\<bar>" by simp
    then have "(2::real) powi 1024 \<le> 2 powi ilog2 \<bar>x\<bar>" by (intro power_int_increasing) simp_all
    also have "\<dots> \<le> \<bar>x\<bar>" using ilog2_bounds [OF pos] by simp
    also have "\<dots> \<le> 2 powi 1023" by (rule assms)
    finally have "(2::real) powi 1024 \<le> 2 powi 1023" .
    moreover have "(2::real) powi 1023 < 2 powi 1024" by (intro power_int_strict_increasing) simp_all
    ultimately show False by simp
  qed
  then have e: "e \<le> 1023" by (simp add: e_def)
  have "\<bar>of_int m - \<bar>x\<bar> / q\<bar> \<le> 1 / 2" unfolding m_def by (rule round_even_near)
  then have "of_int m \<le> \<bar>x\<bar> / q + 1 / 2" by linarith
  then have "of_int m * q \<le> (\<bar>x\<bar> / q + 1 / 2) * q" using q by (intro mult_right_mono) simp_all
  also have "\<dots> = \<bar>x\<bar> + q / 2" using q by (simp add: field_simps)
  finally have "of_int m * q \<le> \<bar>x\<bar> + q / 2" .
  moreover have "q / 2 < 2 powi 1023"
  proof -
    have "q / 2 \<le> q" using q by simp
    also have "\<dots> < 2 powi 1023" unfolding q_def using e by (intro power_int_strict_increasing) simp_all
    finally show ?thesis .
  qed
  moreover have "(2::real) powi 1024 = 2 powi 1023 + 2 powi 1023"
  proof -
    have "(2::real) powi (1023 + 1) = 2 powi 1023 * 2 powi 1" by (subst power_int_add) simp_all
    then show ?thesis by simp
  qed
  ultimately have lt: "of_int m * q < huge" unfolding huge_powi using assms by linarith
  have "\<bar>x\<bar> < huge" unfolding huge_powi
  proof -
    have "(2::real) powi 1023 < 2 powi 1024" by (intro power_int_strict_increasing) simp_all
    with assms show "\<bar>x\<bar> < 2 powi 1024" by simp
  qed
  then show ?thesis using False lt
    by (simp add: fl_def Let_def e_def [symmetric] q_def [symmetric] m_def [symmetric])
qed

lemma double_grid: "fl x = Fin x \<Longrightarrow> x / tiny \<in> \<int>"
  by (rule fl_grid)

lemma grid_diff: "a / tiny \<in> \<int> \<Longrightarrow> b / tiny \<in> \<int> \<Longrightarrow> (a - b) / tiny \<in> \<int>"
  by (simp add: diff_divide_distrib)

lemma grid_add: "a / tiny \<in> \<int> \<Longrightarrow> b / tiny \<in> \<int> \<Longrightarrow> (a + b) / tiny \<in> \<int>"
  by (simp add: add_divide_distrib)

lemma grid_mult: "a \<in> \<int> \<Longrightarrow> b / tiny \<in> \<int> \<Longrightarrow> (a * b) / tiny \<in> \<int>"
  by (metis Ints_mult times_divide_eq_right)

text \<open>The difference of two doubles has the sign of their order: it never rounds to zero.\<close>

lemma fl_grid_pos:
  assumes "x / tiny \<in> \<int>" and "0 < x" and "fl x = Fin y"
  shows "0 < y"
proof -
  have "\<bar>y - x\<bar> \<le> \<bar>x\<bar> / 2 ^ 53" using assms(3,1) by (intro fl_error_rel) simp_all
  then have "x - x / 2 ^ 53 \<le> y" using assms(2) by linarith
  moreover have "x / 2 ^ 53 < x" using assms(2) by simp
  ultimately show ?thesis by linarith
qed

lemma js_sub_doubles_pos:
  assumes "fl lo = Fin lo" and "fl hi = Fin hi" and "lo < hi"
  shows "js_sub (Fin hi) (Fin lo) = PosInf \<or> (\<exists>d. js_sub (Fin hi) (Fin lo) = Fin d \<and> 0 < d \<and> d / tiny \<in> \<int>
           \<and> \<bar>d - (hi - lo)\<bar> \<le> (hi - lo) / 2 ^ 53)"
proof -
  have g: "(hi - lo) / tiny \<in> \<int>"
    using assms(1,2) by (intro grid_diff double_grid)
  have p: "0 < hi - lo" using assms(3) by simp
  from fl_cases_pos [of "hi - lo"] p consider "fl (hi - lo) = PosInf" | d where "fl (hi - lo) = Fin d"
    by auto
  then show ?thesis
  proof cases
    case 1
    then show ?thesis by (simp add: js_sub_Fin)
  next
    case 2
    from fl_error_rel [OF 2] g have "\<bar>d - (hi - lo)\<bar> \<le> \<bar>hi - lo\<bar> / 2 ^ 53" by simp
    then show ?thesis using 2 fl_grid_pos [OF g p 2] fl_grid [OF 2] p by (simp add: js_sub_Fin)
  qed
qed

lemma min_normal_le_half: "2 ^ 52 * tiny \<le> 1 / 2"
proof -
  have "(2::real) powi (- 1022) \<le> 2 powi (- 1)" by (intro power_int_increasing) simp_all
  then show ?thesis unfolding min_normal_tiny by simp
qed

lemma le_2_powi_1023: "x \<le> 2048 \<Longrightarrow> x \<le> (2::real) powi 1023"
proof -
  assume "x \<le> 2048"
  also have "(2048::real) = 2 powi 11" by simp
  also have "\<dots> \<le> 2 powi 1023" by (intro power_int_increasing) simp_all
  finally show ?thesis .
qed

subsection \<open>The scale at the ends of its domain\<close>

lemma scaleData_at_min:
  assumes "fl lo = Fin lo" and "fl hi = Fin hi" and "lo < hi"
    and "fl r0 = Fin r0" and "js_sub (Fin r1) (Fin r0) = Fin c"
  shows "scaleData (Fin lo) (Fin lo) (Fin hi) (Fin r0) (Fin r1) = Fin r0"
proof -
  have z: "js_mul (js_sub (Fin r1) (Fin r0)) (js_sub (Fin lo) (Fin lo)) = Fin 0"
    unfolding assms(5) by (simp add: js_sub_Fin fl_zero)
  from js_sub_doubles_pos [OF assms(1,2,3)]
  have "js_div (Fin 0) (js_sub (Fin hi) (Fin lo)) = Fin 0"
    by (auto simp: fl_zero)
  then show ?thesis unfolding scaleData_def z by (simp add: assms(4))
qed

lemma p53: "(2::real) ^ 53 = 9007199254740992"
  by simp

lemma p42: "(2::real) ^ 42 = 4398046511104"
  by simp

lemma scaleData_at_max:
  assumes "fl lo = Fin lo" and "fl hi = Fin hi" and "lo < hi"
    and "js_sub (Fin r1) (Fin r0) = Fin c" and "c \<in> \<int>" and "1 \<le> \<bar>c\<bar>" and "\<bar>c\<bar> \<le> 600"
    and "1 \<le> \<bar>r0 + c\<bar>" and "\<bar>r0 + c\<bar> \<le> 650"
    and "isFinite (js_mul (js_sub (Fin r1) (Fin r0)) (js_sub (Fin hi) (Fin lo)))"
  shows "\<exists>p. scaleData (Fin hi) (Fin lo) (Fin hi) (Fin r0) (Fin r1) = Fin p
           \<and> \<bar>p - (r0 + c)\<bar> \<le> 1 / 2 ^ 42"
proof -
  have cz: "c \<noteq> 0" using assms(6) by auto
  from js_sub_doubles_pos [OF assms(1,2,3)] assms(10) cz obtain d where
    d: "js_sub (Fin hi) (Fin lo) = Fin d" and dpos: "0 < d" and dg: "d / tiny \<in> \<int>"
    unfolding assms(4) by (cases "0 < c") (auto simp: signed_inf_def)
  from assms(10) obtain p1 where p1: "fl (c * d) = Fin p1"
    unfolding assms(4) d by (cases "fl (c * d)") simp_all
  have "(c * d) / tiny \<in> \<int>" using assms(5) dg by (rule grid_mult)
  with fl_error_rel [OF p1] have e1: "\<bar>p1 - c * d\<bar> \<le> \<bar>c * d\<bar> / 2 ^ 53" by simp
  define x where "x = p1 / d"
  have "\<bar>x - c\<bar> = \<bar>p1 - c * d\<bar> / d"
    unfolding x_def using dpos by (simp add: field_simps abs_divide flip: abs_mult)
  also have "\<dots> \<le> (\<bar>c * d\<bar> / 2 ^ 53) / d" using e1 dpos by (intro divide_right_mono) simp_all
  also have "\<dots> = \<bar>c\<bar> / 2 ^ 53" using dpos by (simp add: abs_mult)
  finally have ex: "\<bar>x - c\<bar> \<le> \<bar>c\<bar> / 2 ^ 53" .
  have xb: "\<bar>x\<bar> \<le> 601" "1 / 2 \<le> \<bar>x\<bar>" using ex assms(6,7) unfolding p53 by linarith+
  from fl_finite [of x] xb(1) obtain q where q: "fl x = Fin q"
    using le_2_powi_1023 [of "\<bar>x\<bar>"] by auto
  have "2 ^ 52 * tiny \<le> \<bar>x\<bar>" using min_normal_le_half xb(2) by linarith
  with fl_error_rel [OF q] have eq: "\<bar>q - x\<bar> \<le> \<bar>x\<bar> / 2 ^ 53" by simp
  define z where "z = r0 + q"
  have zq: "\<bar>z - (r0 + c)\<bar> \<le> 1201 / 2 ^ 53"
    unfolding z_def p53 using ex eq xb(1) assms(7) unfolding p53 by linarith
  then have zb: "\<bar>z\<bar> \<le> 651" "1 / 2 \<le> \<bar>z\<bar>" using assms(8,9) unfolding p53 by linarith+
  from fl_finite [of z] zb(1) obtain r where r: "fl z = Fin r"
    using le_2_powi_1023 [of "\<bar>z\<bar>"] by auto
  have "2 ^ 52 * tiny \<le> \<bar>z\<bar>" using min_normal_le_half zb(2) by linarith
  with fl_error_rel [OF r] have er: "\<bar>r - z\<bar> \<le> \<bar>z\<bar> / 2 ^ 53" by simp
  have "\<bar>r - (r0 + c)\<bar> \<le> 1 / 2 ^ 42" using er zq zb(1) unfolding p53 p42 by linarith
  moreover have "scaleData (Fin hi) (Fin lo) (Fin hi) (Fin r0) (Fin r1) = Fin r"
    unfolding scaleData_def assms(4) d using dpos p1 q r
    by (simp add: x_def z_def)
  ultimately show ?thesis by blast
qed

lemma fl_minus: "fl (- x) = js_neg (fl x)"
  by (auto simp: fl_def Let_def signed_inf_def)

lemma ilog2_unique:
  assumes "0 < x" and "2 powi e \<le> x" and "x < 2 powi (e + 1)"
  shows "ilog2 x = e"
proof (rule ccontr)
  assume ne: "ilog2 x \<noteq> e"
  note b = ilog2_bounds [OF assms(1)]
  show False
  proof (cases "ilog2 x < e")
    case True
    then have "(2::real) powi (ilog2 x + 1) \<le> 2 powi e" by (intro power_int_increasing) simp_all
    with b assms(2) show False by linarith
  next
    case False
    with ne have "e + 1 \<le> ilog2 x" by simp
    then have "(2::real) powi (e + 1) \<le> 2 powi ilog2 x" by (intro power_int_increasing) simp_all
    with b assms(3) show False by linarith
  qed
qed

lemma fl_pow2:
  assumes "- 1022 \<le> k" and "k \<le> 1023"
  shows "fl (2 powi k) = Fin (2 powi k)"
proof -
  define x :: real where "x = 2 powi k"
  have pos: "0 < x" by (simp add: x_def)
  have "x < 2 powi (k + 1)" unfolding x_def by (intro power_int_strict_increasing) simp_all
  then have il: "ilog2 \<bar>x\<bar> = k" using pos by (intro ilog2_unique) (simp_all add: x_def)
  have lt: "x < huge" unfolding huge_powi x_def using assms(2)
    by (intro power_int_strict_increasing) simp_all
  have q: "x / 2 powi (k - 52) = of_int (2 ^ 52)"
    unfolding x_def by (simp add: power_int_diff)
  have y: "of_int (round_even (x / 2 powi (k - 52))) * 2 powi (k - 52) = x"
  proof -
    have "round_even (x / 2 powi (k - 52)) = 2 ^ 52" unfolding q by (simp only: round_even_of_int)
    then show ?thesis unfolding x_def by (simp add: power_int_diff)
  qed
  have "max (ilog2 \<bar>x\<bar>) (- 1022) = k" unfolding il using assms(1) by simp
  then have "fl x = Fin x"
    using pos lt unfolding fl_def Let_def by (simp add: y)
  then show ?thesis unfolding x_def .
qed

lemma double_pow_1023: "fl (2 ^ 1023) = Fin (2 ^ 1023)" "fl (- (2 ^ 1023)) = Fin (- (2 ^ 1023))"
proof -
  have e: "(2::real) ^ 1023 = 2 powi 1023" by simp
  show "fl (2 ^ 1023) = Fin (2 ^ 1023)" unfolding e by (rule fl_pow2) simp_all
  then show "fl (- (2 ^ 1023)) = Fin (- (2 ^ 1023))" by (simp add: fl_minus)
qed

text \<open>The pixel coordinates of the chart are doubles, and so are their differences.\<close>

lemma pixel_doubles:
  "fl 50 = Fin 50" "fl 350 = Fin 350" "fl 650 = Fin 650" "fl 600 = Fin 600"
  "fl (- 300) = Fin (- 300)" "fl 5 = Fin 5"
  by (simp_all add: fl_eval)

lemma chart_ranges:
  "js_sub chartWidth padding = Fin 650" "js_sub chartHeight padding = Fin 350"
  "js_sub (Fin 650) (Fin 50) = Fin 600" "js_sub (Fin 50) (Fin 350) = Fin (- 300)"
  by (simp_all add: chartWidth_def chartHeight_def padding_def js_sub_Fin pixel_doubles)

subsection \<open>Source list, colours and selection\<close>

lemma Set_values_fold:
  "distinct acc \<Longrightarrow>
   distinct (fold (\<lambda>x acc. if x \<in> set acc then acc else acc @ [x]) xs acc)
   \<and> set (fold (\<lambda>x acc. if x \<in> set acc then acc else acc @ [x]) xs acc) = set acc \<union> set xs"
  by (induction xs arbitrary: acc) auto

lemma distinct_Set_values: "distinct (Set_values xs)"
  using Set_values_fold [of "[]" xs] by (simp add: Set_values_def)

lemma set_Set_values: "set (Set_values xs) = set xs"
  using Set_values_fold [of "[]" xs] by (simp add: Set_values_def)

lemma uniquePmts_props:
  "sorted (uniquePmts ds)" "distinct (uniquePmts ds)" "set (uniquePmts ds) = source_file ` set ds"
  by (simp_all add: uniquePmts_def distinct_Set_values set_Set_values)

lemma uniquePmts_cong:
  assumes "source_file ` set d1 = source_file ` set d2"
  shows "uniquePmts d1 = uniquePmts d2"
  by (rule sorted_distinct_set_unique) (simp_all add: uniquePmts_props assms)

text \<open>The colour map: what the reduction stores, and what it does not.\<close>

lemma fold_put_proto:
  assumes "\<And>ip acc. f ip acc = obj_put acc (snd ip) (g (fst ip))"
  shows "m ''__proto__'' = None \<Longrightarrow> fold f ps m ''__proto__'' = None"
  by (induction ps arbitrary: m) (auto simp: assms obj_put_def)

lemma fold_put_other:
  assumes "\<And>ip acc. f ip acc = obj_put acc (snd ip) (g (fst ip))"
  shows "k \<notin> snd ` set ps \<Longrightarrow> fold f ps m k = m k"
  by (induction ps arbitrary: m) (auto simp: assms obj_put_def)

lemma fold_put_nth:
  assumes f: "\<And>ip acc. f ip acc = obj_put acc (snd ip) (g (fst ip))"
  shows "distinct us \<Longrightarrow> i < length us \<Longrightarrow> us ! i \<noteq> ''__proto__'' \<Longrightarrow>
    fold f (enumerate n us) m (us ! i) = Some (g (n + i))"
proof (induction us arbitrary: n m i)
  case Nil
  then show ?case by simp
next
  case (Cons u us)
  have step: "fold f (enumerate n (u # us)) m = fold f (enumerate (Suc n) us) (obj_put m u (g n))"
    by (simp add: f)
  show ?case
  proof (cases i)
    case 0
    then have u: "u \<noteq> ''__proto__''" using Cons.prems(3) by simp
    have "u \<notin> snd ` set (enumerate (Suc n) us)"
      using Cons.prems(1) by (auto simp: in_set_enumerate_eq)
    then have "fold f (enumerate (Suc n) us) (obj_put m u (g n)) u = (obj_put m u (g n)) u"
      by (rule fold_put_other [OF f])
    then show ?thesis unfolding step using 0 u by (simp add: obj_put_def)
  next
    case (Suc j)
    have "fold f (enumerate (Suc n) us) (obj_put m u (g n)) (us ! j) = Some (g (Suc n + j))"
      using Cons.prems Suc by (intro Cons.IH) simp_all
    then show ?thesis unfolding step using Suc by simp
  qed
qed

lemma fold_put_dom:
  assumes "\<And>ip acc. f ip acc = obj_put acc (snd ip) (g (fst ip))"
  shows "m ''__proto__'' = None \<Longrightarrow>
    dom (fold f ps m) = dom m \<union> (snd ` set ps - {''__proto__''})"
proof (induction ps arbitrary: m)
  case Nil
  then show ?case by simp
next
  case (Cons ip ps)
  have n: "obj_put m (snd ip) (g (fst ip)) ''__proto__'' = None"
    using Cons.prems by (simp add: obj_put_def)
  have step: "fold f (ip # ps) m = fold f ps (obj_put m (snd ip) (g (fst ip)))"
    by (simp add: assms)
  have "dom (fold f (ip # ps) m) = dom (obj_put m (snd ip) (g (fst ip))) \<union> (snd ` set ps - {''__proto__''})"
    unfolding step using n by (rule Cons.IH)
  also have "dom (obj_put m (snd ip) (g (fst ip))) = dom m \<union> ({snd ip} - {''__proto__''})"
    using Cons.prems by (auto simp: obj_put_def)
  finally show ?case by auto
qed

lemma pmtColorMap_proto: "pmtColorMap us ''__proto__'' = None"
  unfolding pmtColorMap_def
  by (rule fold_put_proto [where g = "\<lambda>k. PLOT_COLORS ! (k mod length PLOT_COLORS)"]) simp_all

lemma dom_pmtColorMap: "dom (pmtColorMap us) = set us - {''__proto__''}"
proof -
  have "snd ` set (enumerate 0 us) = set us"
    by (metis list.set_map map_snd_enumerate)
  moreover have "dom (pmtColorMap us)
      = dom (Map.empty :: string \<rightharpoonup> string) \<union> (snd ` set (enumerate 0 us) - {''__proto__''})"
    unfolding pmtColorMap_def
    by (rule fold_put_dom [where g = "\<lambda>k. PLOT_COLORS ! (k mod length PLOT_COLORS)"]) simp_all
  ultimately show ?thesis by simp
qed

lemma pmtColorMap_nth:
  assumes "distinct us" "i < length us" "us ! i \<noteq> ''__proto__''"
  shows "pmtColorMap us (us ! i) = Some (PLOT_COLORS ! (i mod length PLOT_COLORS))"
proof -
  have "pmtColorMap us (us ! i) = Some (PLOT_COLORS ! ((0 + i) mod length PLOT_COLORS))"
    unfolding pmtColorMap_def
    by (rule fold_put_nth [where g = "\<lambda>k. PLOT_COLORS ! (k mod length PLOT_COLORS)", OF _ assms])
      simp
  then show ?thesis by simp
qed

lemma uniquePmts_initialData: "uniquePmts initialData = [''A24-1080.txt'', ''J23-1062.txt'']"
  by (simp add: uniquePmts_def initialData_def Set_values_def)

lemma onSnapshot_selected:
  "selectedPmts (onSnapshot snapshot s) =
     (if selectedPmts s = [] then take 5 (uniquePmts snapshot)
      else filter (\<lambda>p. p \<in> source_file ` set snapshot) (selectedPmts s))"
proof -
  have "min (length (uniquePmts snapshot)) 5 = 5 \<or> length (uniquePmts snapshot) \<le> 5"
    by linarith
  then have "take (min (length (uniquePmts snapshot)) 5) (uniquePmts snapshot) = take 5 (uniquePmts snapshot)"
    by auto
  then show ?thesis
    using uniquePmts_props(3) [of snapshot]
    by (simp add: onSnapshot_def Let_def uniquePmts_def)
qed

text \<open>
  Claim C10. A snapshot that arrives while the selection is empty sets the selection to the
  first five entries of the sorted distinct source list, which is the whole list when there
  are fewer than five sources. A snapshot that arrives while the selection is not empty
  only filters it: the new selection is the old one without the sources missing from the
  snapshot, so nothing is added.
\<close>

theorem snapshot_default_selection:
  "(selectedPmts s = [] \<longrightarrow>
      selectedPmts (onSnapshot snapshot s) = take 5 (uniquePmts snapshot)
      \<and> (length (uniquePmts snapshot) < 5 \<longrightarrow>
           selectedPmts (onSnapshot snapshot s) = uniquePmts snapshot))
   \<and> (selectedPmts s \<noteq> [] \<longrightarrow>
      selectedPmts (onSnapshot snapshot s)
        = filter (\<lambda>p. p \<in> source_file ` set snapshot) (selectedPmts s)
      \<and> set (selectedPmts (onSnapshot snapshot s)) \<subseteq> set (selectedPmts s)
      \<and> length (selectedPmts (onSnapshot snapshot s)) \<le> length (selectedPmts s))"
  by (simp add: onSnapshot_selected)

theorem snapshot_default_selection_witness:
  "selectedPmts (onSnapshot initialData
      \<lparr>allData = [], selectedPmts = [], selectedMetric = ''light_response'', isLoading = True\<rparr>)
     = [''A24-1080.txt'', ''J23-1062.txt'']
   \<and> selectedPmts (onSnapshot (take 5 initialData)
      \<lparr>allData = initialData, selectedPmts = [''A24-1080.txt'', ''J23-1062.txt''],
       selectedMetric = ''light_response'', isLoading = False\<rparr>)
     = [''J23-1062.txt'']"
proof -
  have "selectedPmts (onSnapshot initialData
      \<lparr>allData = [], selectedPmts = [], selectedMetric = ''light_response'', isLoading = True\<rparr>)
     = [''A24-1080.txt'', ''J23-1062.txt'']"
    using snapshot_default_selection [of
      "\<lparr>allData = [], selectedPmts = [], selectedMetric = ''light_response'', isLoading = True\<rparr>"
      initialData]
    by (simp add: uniquePmts_initialData)
  moreover have "selectedPmts (onSnapshot (take 5 initialData)
      \<lparr>allData = initialData, selectedPmts = [''A24-1080.txt'', ''J23-1062.txt''],
       selectedMetric = ''light_response'', isLoading = False\<rparr>)
     = [''J23-1062.txt'']"
    using snapshot_default_selection [of
      "\<lparr>allData = initialData, selectedPmts = [''A24-1080.txt'', ''J23-1062.txt''],
        selectedMetric = ''light_response'', isLoading = False\<rparr>"
      "take 5 initialData"]
    by (simp add: initialData_def)
  ultimately show ?thesis by simp
qed

subsection \<open>Grouping and rendering\<close>

lemma collect_map_Inr: "collect (map Inr xs) = Inr xs"
  by (induction xs) simp_all

lemma collect_Inr_D: "collect rs = Inr xs \<Longrightarrow> rs = map Inr xs"
proof (induction rs arbitrary: xs)
  case Nil
  then show ?case by simp
next
  case (Cons r rs)
  show ?case
  proof (cases r)
    case (Inl e)
    with Cons.prems show ?thesis by simp
  next
    case r: (Inr x)
    show ?thesis
    proof (cases "collect rs")
      case (Inl e)
      with Cons.prems r show ?thesis by simp
    next
      case (Inr ys)
      with Cons.prems r have "xs = x # ys" by simp
      moreover have "rs = map Inr ys" using Inr by (rule Cons.IH)
      ultimately show ?thesis using r by simp
    qed
  qed
qed

lemma collect_Inl_I: "Inl e \<in> set rs \<Longrightarrow> \<exists>e'. collect rs = Inl e'"
proof (induction rs)
  case Nil
  then show ?case by simp
next
  case (Cons r rs)
  show ?case
  proof (cases r)
    case (Inl e')
    then show ?thesis by simp
  next
    case r: (Inr x)
    with Cons.prems have "Inl e \<in> set rs" by auto
    then obtain e' where "collect rs = Inl e'" using Cons.IH by blast
    then show ?thesis using r by simp
  qed
qed

lemma js_error_is_TypeError: "(e :: js_error) = TypeError"
  by (cases e) simp

lemma mset_insert_sorted: "mset (insert_sorted cmp a bs) = add_mset a (mset bs)"
  by (induction bs) auto

lemma mset_Array_sort: "mset (Array_sort cmp xs) = mset xs"
  unfolding Array_sort_def by (induction xs) (auto simp: mset_insert_sorted)

lemma set_Array_sort: "set (Array_sort cmp xs) = set xs"
  by (rule mset_eq_setD) (rule mset_Array_sort)

lemma length_Array_sort: "length (Array_sort cmp xs) = length xs"
  by (rule mset_eq_length) (rule mset_Array_sort)

lemma dataByPmt_fold:
  "fold (\<lambda>pmt acc. acc(pmt \<mapsto> g pmt)) pl acc p = (if p \<in> set pl then Some (g p) else acc p)"
  by (induction pl arbitrary: acc) auto

lemma dataByPmt_apply:
  "dataByPmt data pl p =
     (if p \<in> set pl
      then Some (Array_sort (\<lambda>a b. js_sub (wavelength a) (wavelength b))
                   (filter (\<lambda>d. source_file d = p) data))
      else None)"
  unfolding dataByPmt_def by (simp add: dataByPmt_fold)

lemma markerTitle_Num:
  "getProp d m = Num v \<Longrightarrow>
   markerTitle h p m d =
     Inr (p @ '': Wavelength='' @ toFixed h 1 (wavelength d) @ ''nm, '' @ m @ ''='' @
          toExponential h 3 v)"
  by (simp add: markerTitle_def)

lemma markerTitle_not_Num:
  "\<forall>v. getProp d m \<noteq> Num v \<Longrightarrow> markerTitle h p m d = Inl TypeError"
  by (cases "getProp d m") (simp_all add: markerTitle_def)


lemma marker_Inr_iff:
  "marker h sc p col m d = Inr c \<longleftrightarrow>
     (\<exists>t. markerTitle h p m d = Inr t \<and>
          c = \<lparr>cx = xScale sc (wavelength d), cy = yScale sc (ToNumber h (getProp d m)),
               fill = col, title = t\<rparr>)"
  by (cases "markerTitle h p m d") (auto simp: marker_def)

lemma marker_not_Num:
  "\<forall>v. getProp d m \<noteq> Num v \<Longrightarrow> marker h sc p col m d = Inl TypeError"
  by (simp add: marker_def markerTitle_not_Num)

lemma markers_ok:
  assumes "\<forall>d\<in>set g. \<exists>v. getProp d m = Num v"
  shows "\<exists>cs. map (marker h sc p col m) g = map Inr cs"
  using assms
proof (induction g)
  case Nil
  then show ?case by simp
next
  case (Cons d g)
  then obtain cs where cs: "map (marker h sc p col m) g = map Inr cs" by auto
  from Cons.prems obtain v where "getProp d m = Num v" by auto
  then obtain c where "marker h sc p col m d = Inr c"
    by (simp add: marker_def markerTitle_Num)
  with cs have "map (marker h sc p col m) (d # g) = map Inr (c # cs)" by simp
  then show ?case by blast
qed

lemma plotLine_Inr_D:
  assumes "plotLine h sc byPmt cm m (i, p) = Inr l"
  shows "\<exists>g. byPmt p = Some g \<and> line_key l = p
           \<and> map (marker h sc p (stroke l) m) g = map Inr (circles l)"
proof (cases "byPmt p")
  case None
  with assms show ?thesis by (simp add: plotLine_def)
next
  case (Some g)
  define col where "col = (if truthy (obj_get cm p) then obj_get cm p
      else Str (PLOT_COLORS ! (i mod length PLOT_COLORS)))"
  show ?thesis
  proof (cases "collect (map (marker h sc p col m) g)")
    case (Inl e)
    with assms Some show ?thesis by (simp add: plotLine_def Let_def col_def)
  next
    case (Inr cs)
    with assms Some have "line_key l = p" "stroke l = col" "circles l = cs"
      by (auto simp: plotLine_def Let_def col_def)
    moreover from Inr have "map (marker h sc p col m) g = map Inr cs" by (rule collect_Inr_D)
    ultimately show ?thesis using Some by simp
  qed
qed

lemma plotLine_ok:
  assumes "byPmt p = Some g" and "\<forall>d\<in>set g. \<exists>v. getProp d m = Num v"
  shows "\<exists>l. plotLine h sc byPmt cm m (i, p) = Inr l"
proof -
  define col where "col = (if truthy (obj_get cm p) then obj_get cm p
      else Str (PLOT_COLORS ! (i mod length PLOT_COLORS)))"
  from markers_ok [OF assms(2)] obtain cs where "map (marker h sc p col m) g = map Inr cs"
    by blast
  then have "collect (map (marker h sc p col m) g) = Inr cs" by (simp add: collect_map_Inr)
  then show ?thesis using assms(1) by (simp add: plotLine_def Let_def col_def)
qed

lemma plotLine_err:
  assumes "byPmt p = Some g" and "d \<in> set g" and "\<forall>v. getProp d m \<noteq> Num v"
  shows "plotLine h sc byPmt cm m (i, p) = Inl TypeError"
proof -
  define col where "col = (if truthy (obj_get cm p) then obj_get cm p
      else Str (PLOT_COLORS ! (i mod length PLOT_COLORS)))"
  have "Inl TypeError \<in> set (map (marker h sc p col m) g)"
    using assms(2) marker_not_Num [OF assms(3), of h sc p col] by force
  then obtain e where "collect (map (marker h sc p col m) g) = Inl e"
    using collect_Inl_I by blast
  then show ?thesis using assms(1) js_error_is_TypeError
    by (simp add: plotLine_def Let_def col_def)
qed

lemma map_all_Inr:
  "\<forall>x\<in>set xs. \<exists>y. f x = Inr y \<Longrightarrow> \<exists>ys. map f xs = map Inr ys"
proof (induction xs)
  case Nil
  then show ?case by simp
next
  case (Cons x xs)
  then obtain ys where "map f xs = map Inr ys" by auto
  moreover from Cons.prems obtain y where "f x = Inr y" by auto
  ultimately have "map f (x # xs) = map Inr (y # ys)" by simp
  then show ?case by blast
qed

lemma chartScales_Some:
  "data \<noteq> [] \<Longrightarrow> \<exists>sc. chartScales h data m = Some sc \<and> yAxisLabel sc = metricLabel m"
  by (simp add: chartScales_def Let_def)

lemma SvgLineChart_empty:
  "SvgLineChart h [] m pl cm = Inr (Placeholder ''No data selected or available to plot.'')"
  by (simp add: SvgLineChart_def)

lemma SvgLineChart_Inr_D:
  assumes "SvgLineChart h data m pl cm = Inr el" and "data \<noteq> []"
  shows "\<exists>sc ls. chartScales h data m = Some sc
           \<and> map (plotLine h sc (dataByPmt data pl) cm m) (enumerate 0 pl) = map Inr ls
           \<and> el = Chart \<lparr>heading = yAxisLabel sc @ '' vs. Wavelength (nm)'',
                 yGrid = map (\<lambda>tick. \<lparr>tick_at = yScale sc tick, tick_text = toExponential h 2 tick\<rparr>)
                           (yAxisTicks sc),
                 xGrid = map (\<lambda>tick. \<lparr>tick_at = xScale sc tick, tick_text = toFixed h 0 tick\<rparr>)
                           (xAxisTicks sc),
                 yAxisText = yAxisLabel sc, plots = ls\<rparr>"
proof -
  from chartScales_Some [OF assms(2)] obtain sc where sc: "chartScales h data m = Some sc"
    by blast
  show ?thesis
  proof (cases "collect (map (plotLine h sc (dataByPmt data pl) cm m) (enumerate 0 pl))")
    case (Inl e)
    with assms sc show ?thesis by (simp add: SvgLineChart_def Let_def)
  next
    case (Inr ls)
    from Inr have "map (plotLine h sc (dataByPmt data pl) cm m) (enumerate 0 pl) = map Inr ls"
      by (rule collect_Inr_D)
    moreover from assms sc Inr have "el = Chart \<lparr>heading = yAxisLabel sc @ '' vs. Wavelength (nm)'',
                 yGrid = map (\<lambda>tick. \<lparr>tick_at = yScale sc tick, tick_text = toExponential h 2 tick\<rparr>)
                           (yAxisTicks sc),
                 xGrid = map (\<lambda>tick. \<lparr>tick_at = xScale sc tick, tick_text = toFixed h 0 tick\<rparr>)
                           (xAxisTicks sc),
                 yAxisText = yAxisLabel sc, plots = ls\<rparr>"
      by (simp add: SvgLineChart_def Let_def)
    ultimately show ?thesis using sc by blast
  qed
qed

lemma plots_nth:
  assumes "map (plotLine h sc byPmt cm m) (enumerate 0 pl) = map Inr ls"
  shows "length ls = length pl"
    and "i < length pl \<Longrightarrow> plotLine h sc byPmt cm m (i, pl ! i) = Inr (ls ! i)"
proof -
  show l: "length ls = length pl"
    using arg_cong [OF assms, of length] by simp
  assume i: "i < length pl"
  have "map (plotLine h sc byPmt cm m) (enumerate 0 pl) ! i = map Inr ls ! i"
    using assms by simp
  then show "plotLine h sc byPmt cm m (i, pl ! i) = Inr (ls ! i)"
    using i l by (simp add: nth_enumerate_eq)
qed

lemma SvgLineChart_ok:
  assumes "data \<noteq> []"
    and "\<forall>p\<in>set pl. \<forall>d\<in>set data. source_file d = p \<longrightarrow> (\<exists>v. getProp d m = Num v)"
  shows "\<exists>c. SvgLineChart h data m pl cm = Inr (Chart c)"
proof -
  from chartScales_Some [OF assms(1)] obtain sc where sc: "chartScales h data m = Some sc"
    by blast
  have "\<exists>l. plotLine h sc (dataByPmt data pl) cm m ip = Inr l" if "ip \<in> set (enumerate 0 pl)" for ip
  proof -
    obtain i p where ip: "ip = (i, p)" by (cases ip)
    with that have p: "p \<in> set pl" by (auto simp: in_set_enumerate_eq)
    show ?thesis unfolding ip
    proof (rule plotLine_ok)
      show "dataByPmt data pl p = Some (Array_sort (\<lambda>a b. js_sub (wavelength a) (wavelength b))
                   (filter (\<lambda>d. source_file d = p) data))"
        using p by (simp add: dataByPmt_apply)
      show "\<forall>d\<in>set (Array_sort (\<lambda>a b. js_sub (wavelength a) (wavelength b))
                   (filter (\<lambda>d. source_file d = p) data)). \<exists>v. getProp d m = Num v"
        using assms(2) p by (simp add: set_Array_sort)
    qed
  qed
  then have "\<exists>ls. map (plotLine h sc (dataByPmt data pl) cm m) (enumerate 0 pl) = map Inr ls"
    by (intro map_all_Inr) blast
  then obtain ls where "collect (map (plotLine h sc (dataByPmt data pl) cm m) (enumerate 0 pl)) = Inr ls"
    by (auto simp: collect_map_Inr)
  then show ?thesis using assms(1) sc by (simp add: SvgLineChart_def Let_def)
qed

lemma SvgLineChart_err:
  assumes "data \<noteq> []" and "p \<in> set pl" and "d \<in> set data" and "source_file d = p"
    and "\<forall>v. getProp d m \<noteq> Num v"
  shows "SvgLineChart h data m pl cm = Inl TypeError"
proof -
  from chartScales_Some [OF assms(1)] obtain sc where sc: "chartScales h data m = Some sc"
    by blast
  from assms(2) obtain i where i: "i < length pl" "pl ! i = p"
    by (auto simp: in_set_conv_nth)
  have "plotLine h sc (dataByPmt data pl) cm m (i, p) = Inl TypeError"
  proof (rule plotLine_err)
    show "dataByPmt data pl p = Some (Array_sort (\<lambda>a b. js_sub (wavelength a) (wavelength b))
                   (filter (\<lambda>d. source_file d = p) data))"
      using assms(2) by (simp add: dataByPmt_apply)
    show "d \<in> set (Array_sort (\<lambda>a b. js_sub (wavelength a) (wavelength b))
                   (filter (\<lambda>d. source_file d = p) data))"
      using assms(3,4) by (simp add: set_Array_sort)
    show "\<forall>v. getProp d m \<noteq> Num v" by (rule assms(5))
  qed
  moreover have "(i, p) \<in> set (enumerate 0 pl)"
    using i by (auto simp: in_set_enumerate_eq)
  ultimately have "Inl TypeError \<in> set (map (plotLine h sc (dataByPmt data pl) cm m) (enumerate 0 pl))"
    by force
  then obtain e where "collect (map (plotLine h sc (dataByPmt data pl) cm m) (enumerate 0 pl)) = Inl e"
    using collect_Inl_I by blast
  then show ?thesis using assms(1) sc js_error_is_TypeError
    by (simp add: SvgLineChart_def Let_def)
qed

lemma getProp_known_metric:
  "m \<in> opt_key ` set Y_AXIS_OPTIONS \<Longrightarrow> \<exists>v. getProp d m = Num v"
  by (auto simp: Y_AXIS_OPTIONS_def getProp_def)

subsection \<open>What the component returns\<close>

lemma metricLabel_unknown: "m \<notin> opt_key ` set Y_AXIS_OPTIONS \<Longrightarrow> metricLabel m = []"
  by (auto simp: metricLabel_def Y_AXIS_OPTIONS_def)

lemma chart_structure:
  assumes "SvgLineChart h data m pl cm = Inr (Chart c)"
  shows "data \<noteq> []"
    and "\<exists>sc. chartScales h data m = Some sc
          \<and> heading c = metricLabel m @ '' vs. Wavelength (nm)'' \<and> yAxisText c = metricLabel m
          \<and> map tick_at (yGrid c) = map (yScale sc) (yAxisTicks sc)
          \<and> map tick_at (xGrid c) = map (xScale sc) (xAxisTicks sc)
          \<and> length (plots c) = length pl
          \<and> (\<forall>i<length pl. \<exists>g. dataByPmt data pl (pl ! i) = Some g
                \<and> line_key (plots c ! i) = pl ! i
                \<and> map (marker h sc (pl ! i) (stroke (plots c ! i)) m) g
                    = map Inr (circles (plots c ! i)))"
proof -
  show ne: "data \<noteq> []"
    using assms by (auto simp: SvgLineChart_empty)
  from SvgLineChart_Inr_D [OF assms ne] obtain sc ls where
    sc: "chartScales h data m = Some sc"
    and ls: "map (plotLine h sc (dataByPmt data pl) cm m) (enumerate 0 pl) = map Inr ls"
    and c: "Chart c = Chart \<lparr>heading = yAxisLabel sc @ '' vs. Wavelength (nm)'',
                 yGrid = map (\<lambda>tick. \<lparr>tick_at = yScale sc tick, tick_text = toExponential h 2 tick\<rparr>)
                           (yAxisTicks sc),
                 xGrid = map (\<lambda>tick. \<lparr>tick_at = xScale sc tick, tick_text = toFixed h 0 tick\<rparr>)
                           (xAxisTicks sc),
                 yAxisText = yAxisLabel sc, plots = ls\<rparr>"
    by blast
  from chartScales_Some [OF ne, of h m] sc have lab: "yAxisLabel sc = metricLabel m" by auto
  from c have f: "heading c = yAxisLabel sc @ '' vs. Wavelength (nm)''" "yAxisText c = yAxisLabel sc"
    "plots c = ls" "map tick_at (yGrid c) = map (yScale sc) (yAxisTicks sc)"
    "map tick_at (xGrid c) = map (xScale sc) (xAxisTicks sc)"
    by (auto simp: comp_def)
  have "\<exists>g. dataByPmt data pl (pl ! i) = Some g \<and> line_key (ls ! i) = pl ! i
          \<and> map (marker h sc (pl ! i) (stroke (ls ! i)) m) g = map Inr (circles (ls ! i))"
    if "i < length pl" for i
    using plotLine_Inr_D [OF plots_nth(2) [OF ls that]] .
  then show "\<exists>sc. chartScales h data m = Some sc
          \<and> heading c = metricLabel m @ '' vs. Wavelength (nm)'' \<and> yAxisText c = metricLabel m
          \<and> map tick_at (yGrid c) = map (yScale sc) (yAxisTicks sc)
          \<and> map tick_at (xGrid c) = map (xScale sc) (xAxisTicks sc)
          \<and> length (plots c) = length pl
          \<and> (\<forall>i<length pl. \<exists>g. dataByPmt data pl (pl ! i) = Some g
                \<and> line_key (plots c ! i) = pl ! i
                \<and> map (marker h sc (pl ! i) (stroke (plots c ! i)) m) g
                    = map Inr (circles (plots c ! i)))"
    using sc f lab plots_nth(1) [OF ls] by auto
qed

lemma chart_line_keys:
  assumes "SvgLineChart h data m pl cm = Inr (Chart c)"
  shows "map line_key (plots c) = pl"
proof (rule nth_equalityI)
  from chart_structure(2) [OF assms] obtain sc where
    l: "length (plots c) = length pl"
    and k: "\<forall>i<length pl. \<exists>g. dataByPmt data pl (pl ! i) = Some g
                \<and> line_key (plots c ! i) = pl ! i
                \<and> map (marker h sc (pl ! i) (stroke (plots c ! i)) m) g
                    = map Inr (circles (plots c ! i))"
    by blast
  show "length (map line_key (plots c)) = length pl" using l by simp
  fix i
  assume "i < length (map line_key (plots c))"
  then show "map line_key (plots c) ! i = pl ! i" using l k by auto
qed

text \<open>
  Claim C7. With no data the component returns the placeholder panel with its message and
  the memoised computation of scales and ticks yields nothing. The placeholder is returned
  for no other input: with data the scales are computed and the result is never the
  placeholder, and for each metric of \<^verbatim>\<open>Y_AXIS_OPTIONS\<close> it is the chart. In
  \<^verbatim>\<open>App\<close>, an empty filtered data set gives the placeholder.
\<close>

theorem empty_data_placeholder:
  "SvgLineChart h [] m pl cm = Inr (Placeholder ''No data selected or available to plot.'')
   \<and> chartScales h [] m = None
   \<and> (data \<noteq> [] \<longrightarrow>
        chartScales h data m \<noteq> None
        \<and> (\<forall>msg. SvgLineChart h data m pl cm \<noteq> Inr (Placeholder msg))
        \<and> (m \<in> opt_key ` set Y_AXIS_OPTIONS \<longrightarrow> (\<exists>c. SvgLineChart h data m pl cm = Inr (Chart c))))
   \<and> (filteredData (allData s) (selectedPmts s) = [] \<longrightarrow>
        appChart h s = Inr (Placeholder ''No data selected or available to plot.''))"
proof (intro conjI impI allI)
  show "SvgLineChart h [] m pl cm = Inr (Placeholder ''No data selected or available to plot.'')"
    by (rule SvgLineChart_empty)
  show "chartScales h [] m = None" by (simp add: chartScales_def)
  show "appChart h s = Inr (Placeholder ''No data selected or available to plot.'')"
    if "filteredData (allData s) (selectedPmts s) = []"
    using that by (simp add: appChart_def SvgLineChart_empty)
next
  assume ne: "data \<noteq> []"
  show "chartScales h data m \<noteq> None" using chartScales_Some [OF ne, of h m] by auto
  show "SvgLineChart h data m pl cm \<noteq> Inr (Placeholder msg)" for msg
    using SvgLineChart_Inr_D [OF _ ne, of h m pl cm "Placeholder msg"] by auto
  show "\<exists>c. SvgLineChart h data m pl cm = Inr (Chart c)" if "m \<in> opt_key ` set Y_AXIS_OPTIONS"
    using that by (intro SvgLineChart_ok ne) (simp add: getProp_known_metric)
qed

theorem empty_data_placeholder_witness:
  "(\<exists>c. SvgLineChart sample_host (take 5 initialData) ''light_response'' [''J23-1062.txt''] Map.empty
          = Inr (Chart c))
   \<and> appChart sample_host
        \<lparr>allData = initialData, selectedPmts = [], selectedMetric = ''light_response'',
         isLoading = False\<rparr>
       = Inr (Placeholder ''No data selected or available to plot.'')"
proof -
  have "take 5 initialData \<noteq> []" by (simp add: initialData_def)
  moreover have "''light_response'' \<in> opt_key ` set Y_AXIS_OPTIONS"
    by (simp add: Y_AXIS_OPTIONS_def)
  moreover have "filteredData (allData \<lparr>allData = initialData, selectedPmts = [],
      selectedMetric = ''light_response'', isLoading = False\<rparr>)
      (selectedPmts \<lparr>allData = initialData, selectedPmts = [],
      selectedMetric = ''light_response'', isLoading = False\<rparr>) = []"
    by (simp add: filteredData_def)
  ultimately show ?thesis
    using empty_data_placeholder [of sample_host "''light_response''" "[''J23-1062.txt'']" Map.empty
        "take 5 initialData"
        "\<lparr>allData = initialData, selectedPmts = [], selectedMetric = ''light_response'',
          isLoading = False\<rparr>"]
    by blast
qed

subsection \<open>The selection after a snapshot\<close>

text \<open>
  Claim C6. After a snapshot update the selection holds only sources of the snapshot: a
  selected source that the snapshot no longer has is dropped from the state, by filtering
  and with no error value or exception in the update. The chart rendered from the new
  state has one line per source of the new selection, so none for a dropped source, and
  is rendered without exception for each metric of \<^verbatim>\<open>Y_AXIS_OPTIONS\<close>.
\<close>

theorem snapshot_validates_selection:
  "allData (onSnapshot snapshot s) = snapshot
   \<and> set (selectedPmts (onSnapshot snapshot s)) \<subseteq> source_file ` set snapshot
   \<and> (\<forall>p\<in>set (selectedPmts s).
          p \<notin> source_file ` set snapshot \<longrightarrow> p \<notin> set (selectedPmts (onSnapshot snapshot s)))
   \<and> (\<forall>c. appChart h (onSnapshot snapshot s) = Inr (Chart c) \<longrightarrow>
          map line_key (plots c) = selectedPmts (onSnapshot snapshot s)
          \<and> set (map line_key (plots c)) \<subseteq> source_file ` set snapshot)
   \<and> (selectedMetric s \<in> opt_key ` set Y_AXIS_OPTIONS \<longrightarrow>
          (\<exists>el. appChart h (onSnapshot snapshot s) = Inr el))"
proof (intro conjI)
  show d: "allData (onSnapshot snapshot s) = snapshot"
    by (simp add: onSnapshot_def Let_def)
  have "set (take 5 (uniquePmts snapshot)) \<subseteq> source_file ` set snapshot"
    using set_take_subset [of 5 "uniquePmts snapshot"] by (simp add: uniquePmts_props)
  then show sub: "set (selectedPmts (onSnapshot snapshot s)) \<subseteq> source_file ` set snapshot"
    by (auto simp: onSnapshot_selected)
  then show "\<forall>p\<in>set (selectedPmts s).
          p \<notin> source_file ` set snapshot \<longrightarrow> p \<notin> set (selectedPmts (onSnapshot snapshot s))"
    by blast
  show "\<forall>c. appChart h (onSnapshot snapshot s) = Inr (Chart c) \<longrightarrow>
          map line_key (plots c) = selectedPmts (onSnapshot snapshot s)
          \<and> set (map line_key (plots c)) \<subseteq> source_file ` set snapshot"
  proof (intro allI impI)
    fix c
    assume "appChart h (onSnapshot snapshot s) = Inr (Chart c)"
    then have "map line_key (plots c) = selectedPmts (onSnapshot snapshot s)"
      unfolding appChart_def by (rule chart_line_keys)
    then show "map line_key (plots c) = selectedPmts (onSnapshot snapshot s)
          \<and> set (map line_key (plots c)) \<subseteq> source_file ` set snapshot"
      using sub by simp
  qed
  show "selectedMetric s \<in> opt_key ` set Y_AXIS_OPTIONS \<longrightarrow>
          (\<exists>el. appChart h (onSnapshot snapshot s) = Inr el)"
  proof
    assume k: "selectedMetric s \<in> opt_key ` set Y_AXIS_OPTIONS"
    have m: "selectedMetric (onSnapshot snapshot s) = selectedMetric s"
      by (simp add: onSnapshot_def Let_def)
    show "\<exists>el. appChart h (onSnapshot snapshot s) = Inr el"
    proof (cases "filteredData (allData (onSnapshot snapshot s)) (selectedPmts (onSnapshot snapshot s)) = []")
      case True
      then show ?thesis by (simp add: appChart_def SvgLineChart_empty)
    next
      case False
      then have "\<exists>c. appChart h (onSnapshot snapshot s) = Inr (Chart c)"
        unfolding appChart_def m using k
        by (intro SvgLineChart_ok) (simp_all add: getProp_known_metric)
      then show ?thesis by blast
    qed
  qed
qed

theorem snapshot_validates_selection_witness:
  "selectedPmts (onSnapshot (take 5 initialData)
      \<lparr>allData = initialData, selectedPmts = [''A24-1080.txt'', ''J23-1062.txt''],
       selectedMetric = ''light_response'', isLoading = False\<rparr>) = [''J23-1062.txt'']
   \<and> ''A24-1080.txt'' \<notin> source_file ` set (take 5 initialData)
   \<and> (\<exists>el. appChart sample_host (onSnapshot (take 5 initialData)
      \<lparr>allData = initialData, selectedPmts = [''A24-1080.txt'', ''J23-1062.txt''],
       selectedMetric = ''light_response'', isLoading = False\<rparr>) = Inr el)"
proof -
  define s where "s = \<lparr>allData = initialData, selectedPmts = [''A24-1080.txt'', ''J23-1062.txt''],
       selectedMetric = ''light_response'', isLoading = False\<rparr>"
  note t = snapshot_validates_selection [of "take 5 initialData" s sample_host]
  have a: "''A24-1080.txt'' \<notin> source_file ` set (take 5 initialData)"
    by (simp add: initialData_def)
  have sel: "selectedPmts (onSnapshot (take 5 initialData) s) = [''J23-1062.txt'']"
    by (simp add: onSnapshot_selected s_def initialData_def)
  have "selectedMetric s \<in> opt_key ` set Y_AXIS_OPTIONS"
    by (simp add: s_def Y_AXIS_OPTIONS_def)
  with t have "\<exists>el. appChart sample_host (onSnapshot (take 5 initialData) s) = Inr el"
    by blast
  with a sel show ?thesis unfolding s_def by simp
qed

subsection \<open>Metric keys outside the options\<close>

text \<open>
  Claim C8 does not hold: the component never checks the metric key against
  \<^verbatim>\<open>Y_AXIS_OPTIONS\<close>. For the key \<^verbatim>\<open>wavelength\<close>, which is no option, the chart is
  rendered without any error, under the empty label.
\<close>

theorem unknown_metric_renders_counterexample:
  "''wavelength'' \<notin> opt_key ` set Y_AXIS_OPTIONS
   \<and> \<not> isl (SvgLineChart sample_host (take 5 initialData) ''wavelength'' [''J23-1062.txt'']
               Map.empty)
   \<and> metricLabel ''wavelength'' = []"
proof -
  have "take 5 initialData \<noteq> []" by (simp add: initialData_def)
  moreover have "\<forall>p\<in>set [''J23-1062.txt'']. \<forall>d\<in>set (take 5 initialData).
      source_file d = p \<longrightarrow> (\<exists>v. getProp d ''wavelength'' = Num v)"
    by (simp add: getProp_def)
  ultimately have "\<exists>c. SvgLineChart sample_host (take 5 initialData) ''wavelength''
      [''J23-1062.txt''] Map.empty = Inr (Chart c)"
    by (rule SvgLineChart_ok)
  then show ?thesis by (auto simp: Y_AXIS_OPTIONS_def metricLabel_def)
qed

text \<open>
  Claim C8 as amended. For a metric key outside \<^verbatim>\<open>Y_AXIS_OPTIONS\<close> and non-empty data
  there is no check at the call boundary: scales and ticks are computed and the axis
  label falls back to the empty string. The values plotted are those of the member of
  that name and of no other metric. If every point of every selected source has a number
  under that name, the chart is returned, with the empty label in heading and axis title;
  if some point of a selected source has no number there, rendering throws a
  \<^verbatim>\<open>TypeError\<close> at that point's tooltip.
\<close>

theorem unknown_metric_falls_back:
  assumes "m \<notin> opt_key ` set Y_AXIS_OPTIONS" and "data \<noteq> []"
  shows "(\<exists>sc. chartScales h data m = Some sc \<and> yAxisLabel sc = [])
    \<and> ((\<forall>p\<in>set pl. \<forall>d\<in>set data. source_file d = p \<longrightarrow> (\<exists>v. getProp d m = Num v)) \<longrightarrow>
         (\<exists>c sc. SvgLineChart h data m pl cm = Inr (Chart c) \<and> chartScales h data m = Some sc
            \<and> heading c = '' vs. Wavelength (nm)'' \<and> yAxisText c = []
            \<and> (\<forall>i<length pl. \<exists>g. dataByPmt data pl (pl ! i) = Some g
                  \<and> map cy (circles (plots c ! i))
                      = map (\<lambda>d. yScale sc (ToNumber h (getProp d m))) g)))
    \<and> ((\<exists>p\<in>set pl. \<exists>d\<in>set data. source_file d = p \<and> (\<forall>v. getProp d m \<noteq> Num v)) \<longrightarrow>
         SvgLineChart h data m pl cm = Inl TypeError)"
proof (intro conjI impI)
  show "\<exists>sc. chartScales h data m = Some sc \<and> yAxisLabel sc = []"
    using chartScales_Some [OF assms(2), of h m] metricLabel_unknown [OF assms(1)] by auto
  show "SvgLineChart h data m pl cm = Inl TypeError"
    if "\<exists>p\<in>set pl. \<exists>d\<in>set data. source_file d = p \<and> (\<forall>v. getProp d m \<noteq> Num v)"
    using that SvgLineChart_err [OF assms(2)] by blast
  assume "\<forall>p\<in>set pl. \<forall>d\<in>set data. source_file d = p \<longrightarrow> (\<exists>v. getProp d m = Num v)"
  with assms(2) obtain c where c: "SvgLineChart h data m pl cm = Inr (Chart c)"
    using SvgLineChart_ok by blast
  from chart_structure(2) [OF c] obtain sc where sc: "chartScales h data m = Some sc"
    and hd: "heading c = metricLabel m @ '' vs. Wavelength (nm)''" "yAxisText c = metricLabel m"
    and k: "\<forall>i<length pl. \<exists>g. dataByPmt data pl (pl ! i) = Some g
                \<and> line_key (plots c ! i) = pl ! i
                \<and> map (marker h sc (pl ! i) (stroke (plots c ! i)) m) g
                    = map Inr (circles (plots c ! i))"
    by blast
  have "\<exists>g. dataByPmt data pl (pl ! i) = Some g
          \<and> map cy (circles (plots c ! i)) = map (\<lambda>d. yScale sc (ToNumber h (getProp d m))) g"
    if "i < length pl" for i
  proof -
    from k that obtain g where g: "dataByPmt data pl (pl ! i) = Some g"
      and mk: "map (marker h sc (pl ! i) (stroke (plots c ! i)) m) g = map Inr (circles (plots c ! i))"
      by blast
    have "map cy (circles (plots c ! i)) = map (\<lambda>d. yScale sc (ToNumber h (getProp d m))) g"
    proof (rule nth_equalityI)
      show l: "length (map cy (circles (plots c ! i)))
          = length (map (\<lambda>d. yScale sc (ToNumber h (getProp d m))) g)"
        using arg_cong [OF mk, of length] by simp
      fix j
      assume j: "j < length (map cy (circles (plots c ! i)))"
      then have "marker h sc (pl ! i) (stroke (plots c ! i)) m (g ! j) = Inr (circles (plots c ! i) ! j)"
        using arg_cong [OF mk, of "\<lambda>xs. xs ! j"] l by simp
      then have "cy (circles (plots c ! i) ! j) = yScale sc (ToNumber h (getProp (g ! j) m))"
        by (auto simp: marker_Inr_iff)
      then show "map cy (circles (plots c ! i)) ! j
          = map (\<lambda>d. yScale sc (ToNumber h (getProp d m))) g ! j"
        using j l by simp
    qed
    with g show ?thesis by blast
  qed
  then show "\<exists>c sc. SvgLineChart h data m pl cm = Inr (Chart c) \<and> chartScales h data m = Some sc
            \<and> heading c = '' vs. Wavelength (nm)'' \<and> yAxisText c = []
            \<and> (\<forall>i<length pl. \<exists>g. dataByPmt data pl (pl ! i) = Some g
                  \<and> map cy (circles (plots c ! i))
                      = map (\<lambda>d. yScale sc (ToNumber h (getProp d m))) g)"
    using c sc hd metricLabel_unknown [OF assms(1)] by auto
qed

theorem unknown_metric_falls_back_witness:
  "(\<exists>c. SvgLineChart sample_host (take 5 initialData) ''wavelength'' [''J23-1062.txt''] Map.empty
          = Inr (Chart c) \<and> heading c = '' vs. Wavelength (nm)'' \<and> yAxisText c = [])
   \<and> SvgLineChart sample_host (take 5 initialData) ''gain'' [''J23-1062.txt''] Map.empty
       = Inl TypeError"
proof -
  have ne: "take 5 initialData \<noteq> []" by (simp add: initialData_def)
  have w: "''wavelength'' \<notin> opt_key ` set Y_AXIS_OPTIONS"
    and g: "''gain'' \<notin> opt_key ` set Y_AXIS_OPTIONS"
    by (simp_all add: Y_AXIS_OPTIONS_def)
  have "\<forall>p\<in>set [''J23-1062.txt'']. \<forall>d\<in>set (take 5 initialData).
      source_file d = p \<longrightarrow> (\<exists>v. getProp d ''wavelength'' = Num v)"
    by (simp add: getProp_def)
  with unknown_metric_falls_back [OF w ne, of sample_host "[''J23-1062.txt'']" Map.empty]
  have "\<exists>c. SvgLineChart sample_host (take 5 initialData) ''wavelength'' [''J23-1062.txt''] Map.empty
          = Inr (Chart c) \<and> heading c = '' vs. Wavelength (nm)'' \<and> yAxisText c = []"
    by blast
  moreover have "\<exists>p\<in>set [''J23-1062.txt'']. \<exists>d\<in>set (take 5 initialData).
      source_file d = p \<and> (\<forall>v. getProp d ''gain'' \<noteq> Num v)"
    by (simp add: initialData_def getProp_def)
  with unknown_metric_falls_back [OF g ne, of sample_host "[''J23-1062.txt'']" Map.empty]
  have "SvgLineChart sample_host (take 5 initialData) ''gain'' [''J23-1062.txt''] Map.empty
       = Inl TypeError"
    by blast
  ultimately show ?thesis by blast
qed

subsection \<open>Colours of the sources\<close>

lemma PLOT_COLORS_nonempty: "PLOT_COLORS ! (k mod length PLOT_COLORS) \<noteq> []"
proof -
  have "\<forall>c\<in>set PLOT_COLORS. c \<noteq> []" by (simp add: PLOT_COLORS_def)
  moreover have "PLOT_COLORS ! (k mod length PLOT_COLORS) \<in> set PLOT_COLORS"
    by (rule nth_mem) (simp add: PLOT_COLORS_def)
  ultimately show ?thesis by blast
qed

lemma plotLine_stroke:
  assumes "plotLine h sc byPmt cm m (i, p) = Inr l"
  shows "stroke l = (if truthy (obj_get cm p) then obj_get cm p
                     else Str (PLOT_COLORS ! (i mod length PLOT_COLORS)))"
proof (cases "byPmt p")
  case None
  with assms show ?thesis by (simp add: plotLine_def)
next
  case (Some g)
  define col where "col = (if truthy (obj_get cm p) then obj_get cm p
      else Str (PLOT_COLORS ! (i mod length PLOT_COLORS)))"
  show ?thesis
  proof (cases "collect (map (marker h sc p col m) g)")
    case (Inl e)
    with assms Some show ?thesis by (simp add: plotLine_def Let_def col_def)
  next
    case (Inr cs)
    with assms Some show ?thesis by (auto simp: plotLine_def Let_def col_def)
  qed
qed

lemma chart_strokes:
  assumes "SvgLineChart h data m pl cm = Inr (Chart c)" and "i < length pl"
  shows "stroke (plots c ! i) = (if truthy (obj_get cm (pl ! i)) then obj_get cm (pl ! i)
                                 else Str (PLOT_COLORS ! (i mod length PLOT_COLORS)))"
proof -
  have ne: "data \<noteq> []" using assms(1) by (auto simp: SvgLineChart_empty)
  from SvgLineChart_Inr_D [OF assms(1) ne] obtain sc ls where
    ls: "map (plotLine h sc (dataByPmt data pl) cm m) (enumerate 0 pl) = map Inr ls"
    and c: "Chart c = Chart \<lparr>heading = yAxisLabel sc @ '' vs. Wavelength (nm)'',
                 yGrid = map (\<lambda>tick. \<lparr>tick_at = yScale sc tick, tick_text = toExponential h 2 tick\<rparr>)
                           (yAxisTicks sc),
                 xGrid = map (\<lambda>tick. \<lparr>tick_at = xScale sc tick, tick_text = toFixed h 0 tick\<rparr>)
                           (xAxisTicks sc),
                 yAxisText = yAxisLabel sc, plots = ls\<rparr>"
    by blast
  from c have p: "plots c = ls" by auto
  show ?thesis unfolding p using plots_nth(2) [OF ls assms(2)] by (rule plotLine_stroke)
qed

text \<open>
  Claim C5 asks that every source id of the snapshot gets the palette colour of its index
  in the sorted list of the distinct source ids. The code does that for every source id
  but \<^verbatim>\<open>__proto__\<close>: the colour map is a plain object, the assignment of a string to its
  member \<^verbatim>\<open>__proto__\<close> stores nothing, and reading that member yields
  \<^verbatim>\<open>Object.prototype\<close>, which is no colour. So the keys of the map are the sources of the
  snapshot without \<^verbatim>\<open>__proto__\<close>, the source at index \<open>i\<close> of the sorted list gets
  \<open>PLOT_COLORS[i mod 10]\<close> unless it is \<^verbatim>\<open>__proto__\<close>, and for \<^verbatim>\<open>__proto__\<close> the lookup
  yields the inherited member, whatever the snapshot. The map is determined by the set of
  sources of the snapshot, and the selection plays no part in it. In the chart that
  \<^verbatim>\<open>App\<close> renders, the line of a selected source of the snapshot is drawn in the
  colour of the map, and the line of a selected source \<^verbatim>\<open>__proto__\<close> gets the inherited
  member as its colour.
\<close>

theorem proto_source_gets_no_color:
  "sorted (uniquePmts snapshot) \<and> distinct (uniquePmts snapshot)
   \<and> set (uniquePmts snapshot) = source_file ` set snapshot
   \<and> dom (pmtColorMap (uniquePmts snapshot)) = source_file ` set snapshot - {''__proto__''}
   \<and> (\<forall>i < length (uniquePmts snapshot). uniquePmts snapshot ! i \<noteq> ''__proto__'' \<longrightarrow>
         obj_get (pmtColorMap (uniquePmts snapshot)) (uniquePmts snapshot ! i)
           = Str (PLOT_COLORS ! (i mod length PLOT_COLORS)))
   \<and> obj_get (pmtColorMap (uniquePmts snapshot)) ''__proto__'' = Inherited ''__proto__''
   \<and> (source_file ` set snapshot = source_file ` set snapshot' \<longrightarrow>
         pmtColorMap (uniquePmts snapshot) = pmtColorMap (uniquePmts snapshot'))
   \<and> pmtColorMap (uniquePmts (allData (s\<lparr>selectedPmts := sel\<rparr>)))
         = pmtColorMap (uniquePmts (allData s))
   \<and> (\<forall>c. appChart h s = Inr (Chart c) \<longrightarrow>
         (\<forall>i < length (selectedPmts s).
            (selectedPmts s ! i = ''__proto__'' \<longrightarrow>
               stroke (plots c ! i) = Inherited ''__proto__'')
            \<and> (\<forall>j < length (uniquePmts (allData s)).
                  selectedPmts s ! i = uniquePmts (allData s) ! j
                  \<and> selectedPmts s ! i \<noteq> ''__proto__'' \<longrightarrow>
                  stroke (plots c ! i) = Str (PLOT_COLORS ! (j mod length PLOT_COLORS)))))"
proof -
  have pr: "obj_get (pmtColorMap us) ''__proto__'' = Inherited ''__proto__''" for us
    by (simp add: obj_get_def pmtColorMap_proto Object_prototype_keys_def)
  have s1: "stroke (plots c ! i) = Inherited ''__proto__''"
    if "appChart h s = Inr (Chart c)" "i < length (selectedPmts s)"
      "selectedPmts s ! i = ''__proto__''" for c i
    using chart_strokes [OF that(1) [unfolded appChart_def] that(2)] that(3) by (simp add: pr)
  have s2: "stroke (plots c ! i) = Str (PLOT_COLORS ! (j mod length PLOT_COLORS))"
    if "appChart h s = Inr (Chart c)" "i < length (selectedPmts s)"
      "j < length (uniquePmts (allData s))"
      "selectedPmts s ! i = uniquePmts (allData s) ! j \<and> selectedPmts s ! i \<noteq> ''__proto__''"
    for c i j
  proof -
    from that(4) have e: "selectedPmts s ! i = uniquePmts (allData s) ! j"
      and n: "uniquePmts (allData s) ! j \<noteq> ''__proto__''"
      by auto
    have "pmtColorMap (uniquePmts (allData s)) (uniquePmts (allData s) ! j)
        = Some (PLOT_COLORS ! (j mod length PLOT_COLORS))"
      using uniquePmts_props(2) that(3) n by (rule pmtColorMap_nth)
    then have "obj_get (pmtColorMap (uniquePmts (allData s))) (selectedPmts s ! i)
        = Str (PLOT_COLORS ! (j mod length PLOT_COLORS))"
      unfolding e by (simp add: obj_get_def)
    then show ?thesis
      using chart_strokes [OF that(1) [unfolded appChart_def] that(2)]
      by (simp add: PLOT_COLORS_nonempty)
  qed
  have B: "\<forall>c. appChart h s = Inr (Chart c) \<longrightarrow>
         (\<forall>i < length (selectedPmts s).
            (selectedPmts s ! i = ''__proto__'' \<longrightarrow>
               stroke (plots c ! i) = Inherited ''__proto__'')
            \<and> (\<forall>j < length (uniquePmts (allData s)).
                  selectedPmts s ! i = uniquePmts (allData s) ! j
                  \<and> selectedPmts s ! i \<noteq> ''__proto__'' \<longrightarrow>
                  stroke (plots c ! i) = Str (PLOT_COLORS ! (j mod length PLOT_COLORS))))"
  proof (intro allI impI conjI)
    fix c i
    assume "appChart h s = Inr (Chart c)" "i < length (selectedPmts s)"
      "selectedPmts s ! i = ''__proto__''"
    then show "stroke (plots c ! i) = Inherited ''__proto__''" by (rule s1)
  next
    fix c i j
    assume "appChart h s = Inr (Chart c)" "i < length (selectedPmts s)"
      "j < length (uniquePmts (allData s))"
      "selectedPmts s ! i = uniquePmts (allData s) ! j \<and> selectedPmts s ! i \<noteq> ''__proto__''"
    then show "stroke (plots c ! i) = Str (PLOT_COLORS ! (j mod length PLOT_COLORS))" by (rule s2)
  qed
  have A: "sorted (uniquePmts snapshot) \<and> distinct (uniquePmts snapshot)
   \<and> set (uniquePmts snapshot) = source_file ` set snapshot
   \<and> dom (pmtColorMap (uniquePmts snapshot)) = source_file ` set snapshot - {''__proto__''}"
    by (simp add: uniquePmts_props dom_pmtColorMap)
  have C: "\<forall>i < length (uniquePmts snapshot). uniquePmts snapshot ! i \<noteq> ''__proto__'' \<longrightarrow>
         obj_get (pmtColorMap (uniquePmts snapshot)) (uniquePmts snapshot ! i)
           = Str (PLOT_COLORS ! (i mod length PLOT_COLORS))"
  proof (intro allI impI)
    fix i
    assume "i < length (uniquePmts snapshot)" "uniquePmts snapshot ! i \<noteq> ''__proto__''"
    with uniquePmts_props(2) have "pmtColorMap (uniquePmts snapshot) (uniquePmts snapshot ! i)
        = Some (PLOT_COLORS ! (i mod length PLOT_COLORS))"
      by (rule pmtColorMap_nth)
    then show "obj_get (pmtColorMap (uniquePmts snapshot)) (uniquePmts snapshot ! i)
           = Str (PLOT_COLORS ! (i mod length PLOT_COLORS))"
      by (simp add: obj_get_def)
  qed
  have D: "source_file ` set snapshot = source_file ` set snapshot' \<longrightarrow>
         pmtColorMap (uniquePmts snapshot) = pmtColorMap (uniquePmts snapshot')"
    using uniquePmts_cong [of snapshot snapshot'] by simp
  have E: "pmtColorMap (uniquePmts (allData (s\<lparr>selectedPmts := sel\<rparr>)))
         = pmtColorMap (uniquePmts (allData s))"
    by simp
  from A C pr [of "uniquePmts snapshot"] D E B show ?thesis by (intro conjI) blast+
qed

text \<open>
  The seed data, where both sources get their colours, and a snapshot whose only source
  is named \<^verbatim>\<open>__proto__\<close>: it is at index 0 of the sorted list, the colour map is empty
  and the lookup does not yield \<open>PLOT_COLORS[0]\<close>.
\<close>

theorem proto_source_gets_no_color_witness:
  "obj_get (pmtColorMap (uniquePmts initialData)) ''A24-1080.txt'' = Str ''#ef4444''
   \<and> obj_get (pmtColorMap (uniquePmts initialData)) ''J23-1062.txt'' = Str ''#3b82f6''
   \<and> pmtColorMap (uniquePmts initialData) = pmtColorMap (uniquePmts (rev initialData))
   \<and> uniquePmts [(initialData ! 0)\<lparr>source_file := ''__proto__''\<rparr>] = [''__proto__'']
   \<and> dom (pmtColorMap (uniquePmts [(initialData ! 0)\<lparr>source_file := ''__proto__''\<rparr>])) = {}
   \<and> obj_get (pmtColorMap (uniquePmts [(initialData ! 0)\<lparr>source_file := ''__proto__''\<rparr>]))
         ''__proto__'' = Inherited ''__proto__''
   \<and> PLOT_COLORS ! (0 mod length PLOT_COLORS) = ''#ef4444''
   \<and> (\<exists>c. appChart sample_host
             \<lparr>allData = [(initialData ! 0)\<lparr>source_file := ''__proto__''\<rparr>],
              selectedPmts = [''__proto__''], selectedMetric = ''light_response'',
              isLoading = False\<rparr> = Inr (Chart c)
          \<and> stroke (plots c ! 0) = Inherited ''__proto__'')"
proof -
  define s0 where "s0 = \<lparr>allData = [(initialData ! 0)\<lparr>source_file := ''__proto__''\<rparr>],
              selectedPmts = [''__proto__''], selectedMetric = ''light_response'',
              isLoading = False\<rparr>"
  have "\<exists>c. appChart sample_host s0 = Inr (Chart c)"
    unfolding appChart_def
    by (rule SvgLineChart_ok) (simp_all add: s0_def filteredData_def getProp_def)
  then obtain c0 where c0: "appChart sample_host s0 = Inr (Chart c0)" by blast
  note q = proto_source_gets_no_color [where s = s0 and h = sample_host, THEN conjunct2, THEN conjunct2,
      THEN conjunct2, THEN conjunct2, THEN conjunct2, THEN conjunct2, THEN conjunct2,
      THEN conjunct2, rule_format, OF c0, of 0, THEN conjunct1]
  have "stroke (plots c0 ! 0) = Inherited ''__proto__''"
    by (rule q [rule_format]) (simp_all add: s0_def)
  with c0 have r: "\<exists>c. appChart sample_host s0 = Inr (Chart c)
      \<and> stroke (plots c ! 0) = Inherited ''__proto__''"
    by blast
  note c = proto_source_gets_no_color [of initialData "rev initialData", unfolded uniquePmts_initialData]
  note n = c [THEN conjunct2, THEN conjunct2, THEN conjunct2, THEN conjunct2, THEN conjunct1,
      rule_format]
  have "obj_get (pmtColorMap [''A24-1080.txt'', ''J23-1062.txt'']) ''A24-1080.txt'' = Str ''#ef4444''"
    using n [of 0] by (simp add: PLOT_COLORS_def)
  moreover have "obj_get (pmtColorMap [''A24-1080.txt'', ''J23-1062.txt'']) ''J23-1062.txt'' = Str ''#3b82f6''"
    using n [of 1] by (simp add: PLOT_COLORS_def)
  moreover have "pmtColorMap [''A24-1080.txt'', ''J23-1062.txt''] = pmtColorMap (uniquePmts (rev initialData))"
    using c [THEN conjunct2, THEN conjunct2, THEN conjunct2, THEN conjunct2, THEN conjunct2,
        THEN conjunct2, THEN conjunct1]
    by simp
  moreover have u: "uniquePmts [(initialData ! 0)\<lparr>source_file := ''__proto__''\<rparr>] = [''__proto__'']"
    by (simp add: uniquePmts_def Set_values_def)
  moreover note p = proto_source_gets_no_color [of "[(initialData ! 0)\<lparr>source_file := ''__proto__''\<rparr>]"]
  have "dom (pmtColorMap (uniquePmts [(initialData ! 0)\<lparr>source_file := ''__proto__''\<rparr>])) = {}"
    using p [THEN conjunct2, THEN conjunct2, THEN conjunct2, THEN conjunct1] by simp
  moreover have "obj_get (pmtColorMap (uniquePmts [(initialData ! 0)\<lparr>source_file := ''__proto__''\<rparr>]))
         ''__proto__'' = Inherited ''__proto__''"
    using p [THEN conjunct2, THEN conjunct2, THEN conjunct2, THEN conjunct2, THEN conjunct2,
        THEN conjunct1] .
  moreover have "PLOT_COLORS ! (0 mod length PLOT_COLORS) = ''#ef4444''"
    by (simp add: PLOT_COLORS_def)
  ultimately show ?thesis using r unfolding uniquePmts_initialData s0_def by (intro conjI)
qed

subsection \<open>Series groups\<close>

text \<open>The difference of two distinct doubles never rounds to zero, so its sign is their order.\<close>

lemma grid_nonzero:
  assumes "x / tiny \<in> \<int>" and "x \<noteq> 0"
  shows "tiny \<le> \<bar>x\<bar>"
proof -
  from assms(1) obtain k :: int where k: "x / tiny = of_int k" by (auto elim: Ints_cases)
  then have x: "x = of_int k * tiny" using tiny_pos by (simp add: field_simps)
  with assms(2) have "k \<noteq> 0" by auto
  then have "1 \<le> \<bar>of_int k :: real\<bar>" by (metis of_int_abs of_int_1_le_iff abs_ge_zero zero_less_abs_iff int_one_le_iff_zero_less)
  then have "1 * tiny \<le> \<bar>of_int k\<bar> * tiny" using tiny_pos by (intro mult_right_mono) simp_all
  then show ?thesis unfolding x using tiny_pos by (simp add: abs_mult)
qed

lemma tiny_small: "tiny \<le> 1 / 1024"
proof -
  have "(2::real) powi (- 1074) \<le> 2 powi (- 10)" by (intro power_int_increasing) simp_all
  then show ?thesis unfolding tiny_def by (simp add: power_int_minus)
qed

lemma js_less_0_fl:
  assumes "tiny \<le> \<bar>x\<bar>"
  shows "js_less (Fin 0) (fl x) \<longleftrightarrow> 0 < x"
proof (cases "fl x")
  case (Fin y)
  from fl_error_abs [OF Fin] have e: "\<bar>y - x\<bar> \<le> \<bar>x\<bar> / 2 ^ 53 + tiny / 2" .
  have "\<bar>x\<bar> / 2 ^ 53 \<le> \<bar>x\<bar> / 4" by (intro divide_left_mono) simp_all
  with e have "\<bar>y - x\<bar> < \<bar>x\<bar>" using assms tiny_pos by linarith
  then have "0 < y \<longleftrightarrow> 0 < x" by linarith
  then show ?thesis using Fin by simp
next
  case PosInf
  then show ?thesis by (auto simp: fl_def Let_def signed_inf_def split: if_splits)
next
  case NegInf
  then show ?thesis by (auto simp: fl_def Let_def signed_inf_def split: if_splits)
next
  case NaN
  then show ?thesis by (auto simp: fl_def Let_def signed_inf_def split: if_splits)
qed

lemma js_less_0_sub:
  "1 / 1024 \<le> \<bar>a - b\<bar> \<Longrightarrow> js_less (Fin 0) (js_sub (Fin a) (Fin b)) \<longleftrightarrow> b < a"
  using js_less_0_fl [of "a - b"] tiny_small by (simp add: js_sub_Fin)

lemma compare_doubles:
  assumes "fl a = Fin a" and "fl b = Fin b"
  shows "js_less (Fin 0) (js_sub (Fin a) (Fin b)) \<longleftrightarrow> b < a"
proof (cases "a = b")
  case True
  then show ?thesis by (simp add: js_sub_Fin fl_zero)
next
  case False
  have "(a - b) / tiny \<in> \<int>" using assms by (intro grid_diff double_grid)
  then have "tiny \<le> \<bar>a - b\<bar>" using False by (intro grid_nonzero) simp_all
  then show ?thesis using js_less_0_fl [of "a - b"] by (simp add: js_sub_Fin)
qed

lemma insert_sorted_insort_key:
  assumes "wavelength a = Fin (k a)" and "fl (k a) = Fin (k a)"
    and "\<forall>b\<in>set bs. wavelength b = Fin (k b) \<and> fl (k b) = Fin (k b)"
  shows "insert_sorted (\<lambda>a b. js_sub (wavelength a) (wavelength b)) a bs = insort_key k a bs"
  using assms(3)
proof (induction bs)
  case Nil
  then show ?case by simp
next
  case (Cons b bs)
  have "js_less (Fin 0) (js_sub (wavelength a) (wavelength b)) \<longleftrightarrow> \<not> k a \<le> k b"
    using assms(1,2) Cons.prems compare_doubles [of "k a" "k b"] by auto
  then show ?case using Cons by simp
qed

lemma Array_sort_sort_key:
  assumes "\<forall>d\<in>set xs. wavelength d = Fin (k d) \<and> fl (k d) = Fin (k d)"
  shows "Array_sort (\<lambda>a b. js_sub (wavelength a) (wavelength b)) xs = sort_key k xs"
  using assms
proof (induction xs)
  case Nil
  then show ?case by (simp add: Array_sort_def)
next
  case (Cons x xs)
  then have ih: "Array_sort (\<lambda>a b. js_sub (wavelength a) (wavelength b)) xs = sort_key k xs"
    by simp
  have "insert_sorted (\<lambda>a b. js_sub (wavelength a) (wavelength b)) x (sort_key k xs)
      = insort_key k x (sort_key k xs)"
    using Cons.prems by (intro insert_sorted_insort_key) simp_all
  then show ?case using ih by (simp add: Array_sort_def)
qed

lemma Array_sort_sorted:
  fixes xs :: "point list"
  assumes "\<forall>d\<in>set xs. isDouble (wavelength d)"
  shows "sorted_wrt (\<lambda>a b. \<not> js_less (wavelength b) (wavelength a))
           (Array_sort (\<lambda>a b. js_sub (wavelength a) (wavelength b)) xs)"
proof -
  define k where "k = (\<lambda>d :: point. case wavelength d of Fin r \<Rightarrow> r | _ \<Rightarrow> 0)"
  have fin: "wavelength d = Fin (k d) \<and> fl (k d) = Fin (k d)" if "d \<in> set xs" for d
    using assms that by (cases "wavelength d") (auto simp: k_def)
  then have eq: "Array_sort (\<lambda>a b. js_sub (wavelength a) (wavelength b)) xs = sort_key k xs"
    by (intro Array_sort_sort_key) blast
  have "sorted (map k (sort_key k xs))" by (rule sorted_sort_key)
  then have "sorted_wrt (\<lambda>a b. k a \<le> k b) (sort_key k xs)"
    by (simp add: sorted_map)
  then have "sorted_wrt (\<lambda>a b. \<not> js_less (wavelength b) (wavelength a)) (sort_key k xs)"
  proof (rule sorted_wrt_mono_rel [rotated])
    fix a b
    assume "a \<in> set (sort_key k xs)" "b \<in> set (sort_key k xs)" "k a \<le> k b"
    then show "\<not> js_less (wavelength b) (wavelength a)"
      using fin [of a] fin [of b] by simp
  qed
  then show ?thesis unfolding eq .
qed

lemma filter_filteredData:
  "p \<in> set sel \<Longrightarrow>
   filter (\<lambda>d. source_file d = p) (filteredData snapshot sel) = filter (\<lambda>d. source_file d = p) snapshot"
  unfolding filteredData_def filter_filter by (rule filter_cong) auto

lemma plotLine_points:
  assumes "plotLine h sc byPmt cm m (i, p) = Inr l" and "byPmt p = Some g"
  shows "points l = join '' ''
           (map (\<lambda>d. Number_toString h (xScale sc (wavelength d)) @ '','' @
                      Number_toString h (yScale sc (ToNumber h (getProp d m)))) g)"
proof -
  define col where "col = (if truthy (obj_get cm p) then obj_get cm p
      else Str (PLOT_COLORS ! (i mod length PLOT_COLORS)))"
  show ?thesis
  proof (cases "collect (map (marker h sc p col m) g)")
    case (Inl e)
    with assms show ?thesis by (simp add: plotLine_def Let_def col_def)
  next
    case (Inr cs)
    with assms show ?thesis by (auto simp: plotLine_def Let_def col_def)
  qed
qed

lemma markers_nth:
  assumes "map (marker h sc p col m) g = map Inr cs"
  shows "length cs = length g"
    and "k < length g \<Longrightarrow> marker h sc p col m (g ! k) = Inr (cs ! k)"
proof -
  show l: "length cs = length g" using arg_cong [OF assms, of length] by simp
  assume "k < length g"
  then show "marker h sc p col m (g ! k) = Inr (cs ! k)"
    using arg_cong [OF assms, of "\<lambda>xs. xs ! k"] l by simp
qed

lemma chart_lines:
  assumes "SvgLineChart h data m pl cm = Inr (Chart c)" and "i < length pl"
  shows "\<exists>sc g. chartScales h data m = Some sc \<and> dataByPmt data pl (pl ! i) = Some g
           \<and> length (circles (plots c ! i)) = length g
           \<and> points (plots c ! i) = join '' ''
               (map (\<lambda>d. Number_toString h (xScale sc (wavelength d)) @ '','' @
                          Number_toString h (yScale sc (ToNumber h (getProp d m)))) g)"
proof -
  have ne: "data \<noteq> []" using assms(1) by (auto simp: SvgLineChart_empty)
  from SvgLineChart_Inr_D [OF assms(1) ne] obtain sc ls where
    sc: "chartScales h data m = Some sc"
    and ls: "map (plotLine h sc (dataByPmt data pl) cm m) (enumerate 0 pl) = map Inr ls"
    and c: "Chart c = Chart \<lparr>heading = yAxisLabel sc @ '' vs. Wavelength (nm)'',
                 yGrid = map (\<lambda>tick. \<lparr>tick_at = yScale sc tick, tick_text = toExponential h 2 tick\<rparr>)
                           (yAxisTicks sc),
                 xGrid = map (\<lambda>tick. \<lparr>tick_at = xScale sc tick, tick_text = toFixed h 0 tick\<rparr>)
                           (xAxisTicks sc),
                 yAxisText = yAxisLabel sc, plots = ls\<rparr>"
    by blast
  from c have p: "plots c = ls" by auto
  note pli = plots_nth(2) [OF ls assms(2)]
  from plotLine_Inr_D [OF pli] obtain g where g: "dataByPmt data pl (pl ! i) = Some g"
    and mk: "map (marker h sc (pl ! i) (stroke (ls ! i)) m) g = map Inr (circles (ls ! i))"
    by blast
  have "length (circles (ls ! i)) = length g" using mk by (rule markers_nth(1))
  moreover note plotLine_points [OF pli g]
  ultimately show ?thesis using sc g unfolding p by blast
qed

text \<open>
  Claim C4 does not hold as stated: a selected source that the snapshot does not have still
  gets a group, an empty one.
\<close>

theorem absent_source_group_counterexample:
  "''X42.txt'' \<notin> source_file ` set initialData
   \<and> dataByPmt (filteredData initialData [''J23-1062.txt'', ''X42.txt''])
        [''J23-1062.txt'', ''X42.txt''] ''X42.txt'' = Some []"
  by (simp add: dataByPmt_apply filteredData_def initialData_def Array_sort_def)

text \<open>
  Claim C4 as amended. The grouping has exactly one group per selected source, whether or
  not the data has that source, and none for a source that is not selected. The group of
  a source holds exactly the points of that source, each as often as the data has it, so
  it is empty exactly for a selected source absent from the data; with finite wavelengths
  it is sorted non-decreasingly by wavelength. The data that \<^verbatim>\<open>App\<close> passes on, filtered
  by the selection, has for each selected source the same points as the snapshot. The
  groups are formed only when the data is not empty: a rendered chart has one line per
  selected source, in the order of the selection, with one vertex and one marker per
  point of the group, so the line of a selected source absent from the data has no vertex
  and no marker; with no data at all the component returns the placeholder.
\<close>

theorem groups_per_selected_source:
  assumes "\<forall>d\<in>set data. isDouble (wavelength d)"
  shows "dom (dataByPmt data pl) = set pl
    \<and> (\<forall>p\<in>set pl. \<exists>g. dataByPmt data pl p = Some g
          \<and> mset g = mset (filter (\<lambda>d. source_file d = p) data)
          \<and> sorted_wrt (\<lambda>a b. \<not> js_less (wavelength b) (wavelength a)) g
          \<and> (g = [] \<longleftrightarrow> p \<notin> source_file ` set data))
    \<and> (\<forall>p\<in>set pl. filter (\<lambda>d. source_file d = p) (filteredData data pl)
                      = filter (\<lambda>d. source_file d = p) data)
    \<and> (\<forall>c. SvgLineChart h data m pl cm = Inr (Chart c) \<longrightarrow>
          data \<noteq> [] \<and> map line_key (plots c) = pl
          \<and> (\<forall>i<length pl. \<exists>sc g. chartScales h data m = Some sc
                \<and> dataByPmt data pl (pl ! i) = Some g
                \<and> length (circles (plots c ! i)) = length g
                \<and> points (plots c ! i) = join '' ''
                    (map (\<lambda>d. Number_toString h (xScale sc (wavelength d)) @ '','' @
                               Number_toString h (yScale sc (ToNumber h (getProp d m)))) g)
                \<and> (pl ! i \<notin> source_file ` set data \<longrightarrow>
                     circles (plots c ! i) = [] \<and> points (plots c ! i) = [])))
    \<and> SvgLineChart h [] m pl cm = Inr (Placeholder ''No data selected or available to plot.'')"
proof (intro conjI ballI allI impI)
  show "dom (dataByPmt data pl) = set pl"
    by (auto simp: dataByPmt_apply dom_def)
  show "SvgLineChart h [] m pl cm = Inr (Placeholder ''No data selected or available to plot.'')"
    by (rule SvgLineChart_empty)
  have grp: "\<exists>g. dataByPmt data pl p = Some g
          \<and> mset g = mset (filter (\<lambda>d. source_file d = p) data)
          \<and> sorted_wrt (\<lambda>a b. \<not> js_less (wavelength b) (wavelength a)) g
          \<and> (g = [] \<longleftrightarrow> p \<notin> source_file ` set data)" if p: "p \<in> set pl" for p
  proof -
    define g where "g = Array_sort (\<lambda>a b. js_sub (wavelength a) (wavelength b))
                     (filter (\<lambda>d. source_file d = p) data)"
    have "dataByPmt data pl p = Some g" using p by (simp add: dataByPmt_apply g_def)
    moreover have m: "mset g = mset (filter (\<lambda>d. source_file d = p) data)"
      unfolding g_def by (rule mset_Array_sort)
    moreover have "sorted_wrt (\<lambda>a b. \<not> js_less (wavelength b) (wavelength a)) g"
      unfolding g_def using assms by (intro Array_sort_sorted) simp
    moreover have "g = [] \<longleftrightarrow> p \<notin> source_file ` set data"
    proof -
      have "g = [] \<longleftrightarrow> filter (\<lambda>d. source_file d = p) data = []"
        using m by (metis mset_zero_iff)
      also have "\<dots> \<longleftrightarrow> p \<notin> source_file ` set data"
        by (auto simp: filter_empty_conv)
      finally show ?thesis .
    qed
    ultimately show ?thesis by blast
  qed
  show "\<exists>g. dataByPmt data pl p = Some g
          \<and> mset g = mset (filter (\<lambda>d. source_file d = p) data)
          \<and> sorted_wrt (\<lambda>a b. \<not> js_less (wavelength b) (wavelength a)) g
          \<and> (g = [] \<longleftrightarrow> p \<notin> source_file ` set data)" if "p \<in> set pl" for p
    using that by (rule grp)
  show "filter (\<lambda>d. source_file d = p) (filteredData data pl) = filter (\<lambda>d. source_file d = p) data"
    if "p \<in> set pl" for p
    using that by (rule filter_filteredData)
  fix c
  assume c: "SvgLineChart h data m pl cm = Inr (Chart c)"
  show "data \<noteq> []" using c by (auto simp: SvgLineChart_empty)
  show "map line_key (plots c) = pl" using c by (rule chart_line_keys)
  fix i
  assume i: "i < length pl"
  from chart_lines [OF c i] obtain sc g where sc: "chartScales h data m = Some sc"
    and g: "dataByPmt data pl (pl ! i) = Some g"
    and len: "length (circles (plots c ! i)) = length g"
    and pts: "points (plots c ! i) = join '' ''
               (map (\<lambda>d. Number_toString h (xScale sc (wavelength d)) @ '','' @
                          Number_toString h (yScale sc (ToNumber h (getProp d m)))) g)"
    by blast
  from grp [of "pl ! i"] i g have e: "g = [] \<longleftrightarrow> pl ! i \<notin> source_file ` set data" by auto
  have "circles (plots c ! i) = [] \<and> points (plots c ! i) = []"
    if "pl ! i \<notin> source_file ` set data"
    using that e len pts by simp
  then show "\<exists>sc g. chartScales h data m = Some sc
                \<and> dataByPmt data pl (pl ! i) = Some g
                \<and> length (circles (plots c ! i)) = length g
                \<and> points (plots c ! i) = join '' ''
                    (map (\<lambda>d. Number_toString h (xScale sc (wavelength d)) @ '','' @
                               Number_toString h (yScale sc (ToNumber h (getProp d m)))) g)
                \<and> (pl ! i \<notin> source_file ` set data \<longrightarrow>
                     circles (plots c ! i) = [] \<and> points (plots c ! i) = [])"
    using sc g len pts by blast
qed

lemma seed_wavelengths_double: "\<forall>d\<in>set initialData. isDouble (wavelength d)"
  by (simp add: initialData_doubles fl_eval)

theorem groups_per_selected_source_witness:
  "dom (dataByPmt (rev (take 3 initialData)) [''J23-1062.txt'', ''X42.txt''])
      = {''J23-1062.txt'', ''X42.txt''}
   \<and> dataByPmt (rev (take 3 initialData)) [''J23-1062.txt'', ''X42.txt''] ''J23-1062.txt''
      = Some [initialData ! 0, initialData ! 1, initialData ! 2]
   \<and> dataByPmt (rev (take 3 initialData)) [''J23-1062.txt'', ''X42.txt''] ''X42.txt'' = Some []
   \<and> (\<exists>c. SvgLineChart sample_host (rev (take 3 initialData)) ''light_response''
             [''J23-1062.txt'', ''X42.txt''] Map.empty = Inr (Chart c)
          \<and> map line_key (plots c) = [''J23-1062.txt'', ''X42.txt'']
          \<and> length (circles (plots c ! 0)) = 3
          \<and> circles (plots c ! 1) = [] \<and> points (plots c ! 1) = [])"
proof -
  define data where "data = rev (take 3 initialData)"
  define pl where "pl = [''J23-1062.txt'', ''X42.txt'']"
  have "set data \<subseteq> set initialData"
    unfolding data_def using set_take_subset [of 3 initialData] by simp
  then have d: "\<forall>d\<in>set data. isDouble (wavelength d)"
    using seed_wavelengths_double by blast
  note t = groups_per_selected_source [OF d, of pl sample_host "''light_response''" Map.empty]
  have t1: "dom (dataByPmt data pl) = {''J23-1062.txt'', ''X42.txt''}"
    using t [THEN conjunct1] by (simp add: pl_def)
  have g0: "dataByPmt data pl ''J23-1062.txt''
      = Some [initialData ! 0, initialData ! 1, initialData ! 2]"
    unfolding data_def pl_def
    by (simp add: dataByPmt_apply initialData_doubles Array_sort_def js_less_0_sub)
  have g1: "dataByPmt data pl ''X42.txt'' = Some []"
    unfolding data_def pl_def by (simp add: dataByPmt_apply initialData_def Array_sort_def)
  have "data \<noteq> []" by (simp add: data_def initialData_def)
  moreover have "\<forall>p\<in>set pl. \<forall>d\<in>set data.
      source_file d = p \<longrightarrow> (\<exists>v. getProp d ''light_response'' = Num v)"
    by (simp add: getProp_def)
  ultimately obtain c where c: "SvgLineChart sample_host data ''light_response'' pl Map.empty
      = Inr (Chart c)"
    using SvgLineChart_ok by blast
  note r = t [THEN conjunct2, THEN conjunct2, THEN conjunct2, THEN conjunct1, rule_format, OF c]
  have k: "map line_key (plots c) = pl" using r by (rule conjunct1 [OF conjunct2])
  note ri = r [THEN conjunct2, THEN conjunct2, rule_format]
  have "0 < length pl" by (simp add: pl_def)
  from ri [OF this] obtain g where "dataByPmt data pl (pl ! 0) = Some g"
    and "length (circles (plots c ! 0)) = length g"
    by blast
  then have l0: "length (circles (plots c ! 0)) = 3" using g0 by (simp add: pl_def)
  have "1 < length pl" by (simp add: pl_def)
  from ri [OF this] have "pl ! 1 \<notin> source_file ` set data \<longrightarrow>
      circles (plots c ! 1) = [] \<and> points (plots c ! 1) = []"
    by blast
  moreover have "pl ! 1 \<notin> source_file ` set data"
    by (simp add: pl_def data_def initialData_def)
  ultimately have l1: "circles (plots c ! 1) = [] \<and> points (plots c ! 1) = []" by (rule mp)
  have "SvgLineChart sample_host data ''light_response'' pl Map.empty = Inr (Chart c)
          \<and> map line_key (plots c) = pl
          \<and> length (circles (plots c ! 0)) = 3
          \<and> circles (plots c ! 1) = [] \<and> points (plots c ! 1) = []"
    using c k l0 l1 by (intro conjI) simp_all
  then have "\<exists>c. SvgLineChart sample_host data ''light_response'' pl Map.empty = Inr (Chart c)
          \<and> map line_key (plots c) = pl
          \<and> length (circles (plots c ! 0)) = 3
          \<and> circles (plots c ! 1) = [] \<and> points (plots c ! 1) = []"
    by (rule exI)
  with t1 g0 g1 show ?thesis unfolding data_def pl_def by (intro conjI)
qed

subsection \<open>The digits of formatted numbers\<close>

lemma scale10_powi: "scale10 x k = x * 10 powi k"
  by (simp add: scale10_def power_int_def field_simps)




text \<open>
  The two roundings give a nearest value, as ECMA-262 asks: \<open>toFixed\<close> is off by at most
  half a unit of its last digit, \<open>toExponential\<close> by at most half a unit of the last digit
  of its mantissa.
\<close>

lemma round_half_up_nearest:
  assumes "0 \<le> y"
  shows "\<bar>real (round_half_up y) - y\<bar> \<le> 1 / 2"
proof -
  have "0 \<le> \<lfloor>y + 1 / 2\<rfloor>" using assms by simp
  then have "real (round_half_up y) = of_int \<lfloor>y + 1 / 2\<rfloor>"
    by (simp add: round_half_up_def)
  then show ?thesis by linarith
qed

lemma exponential_parts_nearest:
  assumes "0 < x" and "exponential_parts f x = (n, e)"
  shows "\<bar>real n * 10 powi (e - int f) - x\<bar> \<le> 10 powi (e - int f) / 2"
proof -
  define e0 where "e0 = ilog10 x"
  define y where "y = x * 10 powi (int f - e0)"
  define n0 where "n0 = round_half_up y"
  have p: "(10::real) powi (int f - e0) * 10 powi (e0 - int f) = 1"
    by (simp add: power_int_add [symmetric])
  have "0 \<le> y" using assms(1) by (simp add: y_def)
  then have near: "\<bar>real n0 - y\<bar> \<le> 1 / 2" unfolding n0_def by (rule round_half_up_nearest)
  have ep: "(n, e) = (if n0 = 10 ^ (f + 1) then (10 ^ f, e0 + 1) else (n0, e0))"
    unfolding assms(2) [symmetric]
    by (simp add: exponential_parts_def Let_def scale10_powi n0_def y_def e0_def)
  have same: "real n * 10 powi (e - int f) = real n0 * 10 powi (e0 - int f)"
  proof (cases "n0 = 10 ^ (f + 1)")
    case True
    then have "n = 10 ^ f" "e = e0 + 1"
      using ep by simp_all
    then show ?thesis using True by (simp add: power_int_add power_int_diff)
  next
    case False
    then have "n = n0" "e = e0"
      using ep by simp_all
    then show ?thesis by simp
  qed
  have x: "x = y * 10 powi (e0 - int f)"
    unfolding y_def using p by (simp add: mult.assoc)
  have "\<bar>real n0 * 10 powi (e0 - int f) - x\<bar> = \<bar>real n0 - y\<bar> * 10 powi (e0 - int f)"
    unfolding x by (simp add: left_diff_distrib [symmetric] abs_mult)
  also have "\<dots> \<le> 1 / 2 * 10 powi (e0 - int f)"
    using near by (intro mult_right_mono) simp_all
  finally have "\<bar>real n0 * 10 powi (e0 - int f) - x\<bar> \<le> 10 powi (e0 - int f) / 2" by simp
  moreover have "(10::real) powi (e - int f) \<ge> 10 powi (e0 - int f)"
  proof (cases "n0 = 10 ^ (f + 1)")
    case True
    then have "e0 - int f \<le> e - int f"
      using ep by simp
    then show ?thesis by (intro power_int_increasing) simp_all
  next
    case False
    then have "e = e0"
      using ep by simp_all
    then show ?thesis by simp
  qed
  ultimately show ?thesis unfolding same by linarith
qed












subsection \<open>Markers and tooltips\<close>





subsection \<open>A domain of width zero\<close>

lemma upt6: "[0..<6] = [0,1,2,3,4,5::nat]"
  by (simp add: upt_rec numeral_eq_Suc)

lemma scaleData_degenerate:
  "scaleData (Fin c) (Fin c) (Fin c) (Fin r0) (Fin r1) = NaN"
  by (cases "fl (r1 - r0)") (simp_all add: scaleData_def js_sub_Fin fl_zero)

text \<open>The definitions unfolded when the chart is evaluated on concrete data.\<close>

lemmas eval_defs = chartScales_def Let_def initialData_doubles getProp_def Math_min_def Math_max_def
  padding_def chartWidth_def chartHeight_def js_sub_def scaleData_def axisTicks_def upt6
  SvgLineChart_def dataByPmt_def Array_sort_def plotLine_def marker_def markerTitle_def
  metricLabel_def Y_AXIS_OPTIONS_def PLOT_COLORS_def sample_host_def obj_get_def fl_zero
  pixel_doubles

lemma least_seed_wavelength_double:
  "fl (3623779218917163 / 17592186044416) = Fin (3623779218917163 / 17592186044416)"
  by (simp add: fl_eval)

text \<open>
  Claim C3 asks for a finite pixel inside the range when all values of an axis are equal.
  The code does not do that: the domain has width zero, \<^verbatim>\<open>scaleData\<close> divides zero by zero
  and returns \<open>NaN\<close> for the constant itself, whatever the range. A chart of a single
  measurement places its marker and all its grid lines at \<open>NaN\<close>.
\<close>

theorem degenerate_domain_gives_NaN:
  "scaleData (Fin c) (Fin c) (Fin c) (Fin r0) (Fin r1) = NaN
   \<and> (\<exists>sc. chartScales sample_host (take 1 initialData) ''light_response'' = Some sc
          \<and> xScale sc (wavelength (initialData ! 0)) = NaN
          \<and> yScale sc (light_response (initialData ! 0)) = NaN)
   \<and> (\<exists>c. SvgLineChart sample_host (take 1 initialData) ''light_response'' [''J23-1062.txt'']
              Map.empty = Inr (Chart c)
          \<and> map (\<lambda>l. map (\<lambda>m. (cx m, cy m)) (circles l)) (plots c) = [[(NaN, NaN)]]
          \<and> map tick_at (xGrid c) = [NaN, NaN, NaN, NaN, NaN, NaN])"
  apply (intro conjI)
    apply (rule scaleData_degenerate)
   apply (simp add: eval_defs)
  apply (simp add: eval_defs least_seed_wavelength_double)
  done

end
